theory Spec2Isabelle
  imports Complex_Main "HOL-Library.Sublist"
begin

section \<open>JavaScript values\<close>

text \<open>
  The validator takes a value of type \<open>unknown\<close>. The values it can tell apart are the
  JSON-like ones: \<open>undefined\<close>, \<open>null\<close>, booleans, numbers, strings, arrays and plain
  objects. A number is a finite one, one of the two infinities (which \<open>JSON.parse\<close>
  yields for a literal out of range, such as \<open>1e999\<close>) or NaN. Strings are byte strings
  (UTF-8). An object is the list of its own data properties in enumeration order, as
  \<open>JSON.parse\<close> builds it (accessors, proxies and inherited properties are not part of the
  model).
\<close>

datatype jsnumber = Finite real | PosInfinity | NegInfinity | NaN

datatype jsvalue =
    JUndefined
  | JNull
  | JBool bool
  | JNum jsnumber
  | JStr string
  | JArr "jsvalue list"
  | JObj "(string \<times> jsvalue) list"

text \<open>\<open>input[key]\<close>: the property's value, \<open>undefined\<close> when the object has none.\<close>

definition get_prop :: "(string \<times> jsvalue) list \<Rightarrow> string \<Rightarrow> jsvalue" where
  "get_prop kvs k = (case map_of kvs k of None \<Rightarrow> JUndefined | Some v \<Rightarrow> v)"

text \<open>\<open>key in input\<close>.\<close>

definition has_prop :: "(string \<times> jsvalue) list \<Rightarrow> string \<Rightarrow> bool" where
  "has_prop kvs k = (map_of kvs k \<noteq> None)"

text \<open>The exceptions a callback of the source can raise.\<close>

datatype exn = TypeError string

section \<open>Strings\<close>

text \<open>\<open>Array.prototype.join\<close> on an array of strings.\<close>

fun join :: "string \<Rightarrow> string list \<Rightarrow> string" where
  "join sep [] = []"
| "join sep [x] = x"
| "join sep (x # y # ys) = x @ sep @ join sep (y # ys)"

text \<open>
  \<open>String.prototype.toLowerCase\<close>. On a string of ASCII characters the letters A to Z go
  to a to z and nothing else changes. On a string with other characters the result
  follows the case mappings of Unicode (the Kelvin sign U+212A goes to k, for one), which
  are a parameter of the model: the function \<open>unicode\<close>, from a string to its lower-case
  form. What is proved holds for every such function.
\<close>

definition is_ascii :: "char \<Rightarrow> bool" where
  "is_ascii c = ((of_char c :: nat) < 128)"

definition lower_char :: "char \<Rightarrow> char" where
  "lower_char c =
     (if 65 \<le> (of_char c :: nat) \<and> (of_char c :: nat) \<le> 90
      then char_of ((of_char c :: nat) + 32) else c)"

definition toLowerCase :: "(string \<Rightarrow> string) \<Rightarrow> string \<Rightarrow> string" where
  "toLowerCase unicode s = (if list_all is_ascii s then map lower_char s else unicode s)"

text \<open>\<open>String(n)\<close> for an array index.\<close>

function show_nat :: "nat \<Rightarrow> string" where
  "show_nat n =
     (if n < 10 then [char_of (48 + n)]
      else show_nat (n div 10) @ [char_of (48 + n mod 10)])"
  by pat_completeness auto
termination
  by (relation "measure id") auto

declare show_nat.simps [simp del]

section \<open>The schema library\<close>

text \<open>
  \<open>validation.ts\<close> builds its schema with the zod library (version 4) and runs it with
  \<open>safeParse\<close>. The part of the library the schema uses is modelled here: the issues it
  reports, their default messages (the English locale), and how each kind of schema
  parses a value.
\<close>

datatype pathseg = Key string | Idx nat

datatype issue_code = invalid_type | invalid_value | too_small | custom

text \<open>
  An issue: \<open>continue\<close> is false for the issues that abort the checks that follow
  (wrong type, wrong value), true for a failed check.
\<close>

record issue =
  code :: issue_code
  path :: "pathseg list"
  message :: string
  continue :: bool

text \<open>The name the default messages give to the type of a received value.\<close>

fun parsedType :: "jsvalue \<Rightarrow> string" where
  "parsedType JUndefined = ''undefined''"
| "parsedType JNull = ''null''"
| "parsedType (JBool b) = ''boolean''"
| "parsedType (JNum NaN) = ''NaN''"
| "parsedType (JNum n) = ''number''"
| "parsedType (JStr s) = ''string''"
| "parsedType (JArr vs) = ''array''"
| "parsedType (JObj kvs) = ''object''"

definition invalid_type_issue :: "string \<Rightarrow> jsvalue \<Rightarrow> issue" where
  "invalid_type_issue expected v =
     \<lparr>code = invalid_type, path = [],
      message = ''Invalid input: expected '' @ expected @ '', received '' @ parsedType v,
      continue = False\<rparr>"

text \<open>
  The issue of an enum that was given a message: the message stands for every issue the
  enum reports.
\<close>

definition invalid_value_issue :: "string \<Rightarrow> issue" where
  "invalid_value_issue msg =
     \<lparr>code = invalid_value, path = [], message = msg, continue = False\<rparr>"

text \<open>A check of a number schema: \<open>.positive(msg)\<close> is \<open>GreaterThan 0 msg\<close>.\<close>

datatype number_check = GreaterThan real string

fun check_number :: "real \<Rightarrow> number_check \<Rightarrow> issue list" where
  "check_number r (GreaterThan bound msg) =
     (if bound < r then []
      else [\<lparr>code = too_small, path = [], message = msg, continue = True\<rparr>])"

text \<open>
  The schemas: a number with its checks, an enum of strings with its message, and the
  wrappers. \<open>ZodRefine\<close> is a schema with the check that \<open>.refine(fn, {message})\<close> adds.
\<close>

datatype schema =
    ZodNumber "number_check list"
  | ZodEnum "string list" string
  | ZodBoolean
  | ZodString
  | ZodArray schema
  | ZodOptional schema
  | ZodDefault schema jsvalue
  | ZodRefine schema "jsvalue \<Rightarrow> exn + bool" string
  | ZodObject "(string \<times> schema) list"

text \<open>A payload is aborted when one of its issues does not continue.\<close>

definition aborted :: "issue list \<Rightarrow> bool" where
  "aborted iss = list_ex (\<lambda>i. \<not> continue i) iss"

definition prefixIssues :: "pathseg \<Rightarrow> issue list \<Rightarrow> issue list" where
  "prefixIssues seg iss = map (\<lambda>i. i\<lparr>path := seg # path i\<rparr>) iss"

text \<open>
  The results of the elements of an array, in index order: the issues of element \<open>i\<close>
  get \<open>i\<close> in front of their path. An exception ends the parse.
\<close>

fun handleArrayResults ::
  "nat \<Rightarrow> (exn + issue list \<times> jsvalue) list \<Rightarrow> exn + issue list \<times> jsvalue list" where
  "handleArrayResults i [] = Inr ([], [])"
| "handleArrayResults i (Inl e # rs) = Inl e"
| "handleArrayResults i (Inr (iss, v) # rs) =
     (case handleArrayResults (Suc i) rs of
        Inl e \<Rightarrow> Inl e
      | Inr (iss', vs) \<Rightarrow> Inr (prefixIssues (Idx i) iss @ iss', v # vs))"

text \<open>
  The results of the properties of an object, in the order of the shape: the issues of a
  property get its key in front of their path; the output has the key when the result is
  defined, or when the input has the key. Keys of the input outside the shape are never
  read, so the output does not have them.
\<close>

fun handlePropertyResults ::
  "(string \<times> jsvalue) list \<Rightarrow> (string \<times> (exn + issue list \<times> jsvalue)) list \<Rightarrow>
   exn + issue list \<times> (string \<times> jsvalue) list" where
  "handlePropertyResults input [] = Inr ([], [])"
| "handlePropertyResults input ((k, Inl e) # rs) = Inl e"
| "handlePropertyResults input ((k, Inr (iss, v)) # rs) =
     (case handlePropertyResults input rs of
        Inl e \<Rightarrow> Inl e
      | Inr (iss', out) \<Rightarrow>
          Inr (prefixIssues (Key k) iss @ iss',
               (if v = JUndefined then (if has_prop input k then [(k, JUndefined)] else [])
                else [(k, v)]) @ out))"

text \<open>
  A number schema accepts the finite numbers only: NaN and the infinities are reported as
  a wrong type, like a value that is not a number, and the checks are not run on them.
\<close>

fun run :: "schema \<Rightarrow> jsvalue \<Rightarrow> exn + issue list \<times> jsvalue" where
  "run (ZodNumber checks) (JNum (Finite r)) =
     Inr (concat (map (check_number r) checks), JNum (Finite r))"
| "run (ZodNumber checks) v = Inr ([invalid_type_issue ''number'' v], v)"
| "run (ZodEnum entries msg) (JStr s) =
     (if s \<in> set entries then Inr ([], JStr s)
      else Inr ([invalid_value_issue msg], JStr s))"
| "run (ZodEnum entries msg) v = Inr ([invalid_value_issue msg], v)"
| "run ZodBoolean (JBool b) = Inr ([], JBool b)"
| "run ZodBoolean v = Inr ([invalid_type_issue ''boolean'' v], v)"
| "run ZodString (JStr s) = Inr ([], JStr s)"
| "run ZodString v = Inr ([invalid_type_issue ''string'' v], v)"
| "run (ZodArray element) (JArr vs) =
     (case handleArrayResults 0 (map (run element) vs) of
        Inl e \<Rightarrow> Inl e
      | Inr (iss, out) \<Rightarrow> Inr (iss, JArr out))"
| "run (ZodArray element) v = Inr ([invalid_type_issue ''array'' v], v)"
| "run (ZodOptional inner) JUndefined = Inr ([], JUndefined)"
| "run (ZodOptional inner) v = run inner v"
| "run (ZodDefault inner d) JUndefined = Inr ([], d)"
| "run (ZodDefault inner d) v =
     (case run inner v of
        Inl e \<Rightarrow> Inl e
      | Inr (iss, out) \<Rightarrow> Inr (iss, if out = JUndefined then d else out))"
| "run (ZodRefine inner fn msg) v =
     (case run inner v of
        Inl e \<Rightarrow> Inl e
      | Inr (iss, out) \<Rightarrow>
          if aborted iss then Inr (iss, out)
          else (case fn out of
                  Inl e \<Rightarrow> Inl e
                | Inr ok \<Rightarrow>
                    if ok then Inr (iss, out)
                    else Inr (iss @ [\<lparr>code = custom, path = [], message = msg,
                                      continue = True\<rparr>], out)))"
| "run (ZodObject shape) (JObj kvs) =
     (case handlePropertyResults kvs (map (\<lambda>(k, s). (k, run s (get_prop kvs k))) shape) of
        Inl e \<Rightarrow> Inl e
      | Inr (iss, out) \<Rightarrow> Inr (iss, JObj out))"
| "run (ZodObject shape) v = Inr ([invalid_type_issue ''object'' v], v)"

datatype safeParseResult = Success jsvalue | Failure "issue list"

definition safeParse :: "schema \<Rightarrow> jsvalue \<Rightarrow> exn + safeParseResult" where
  "safeParse s input =
     (case run s input of
        Inl e \<Rightarrow> Inl e
      | Inr (iss, out) \<Rightarrow> Inr (if iss = [] then Success out else Failure iss))"

section \<open>validation.ts\<close>

text \<open>
  The schema and the validator take the Unicode part of \<open>toLowerCase\<close> as their first
  argument.
\<close>

definition INVALID_TOPPINGS :: "string list" where
  "INVALID_TOPPINGS = [''spinach'', ''mushroom'', ''chicken'', ''turkey'']"

text \<open>
  \<open>toppings.some((topping) => INVALID_TOPPINGS.includes(topping.toLowerCase()))\<close>:
  \<open>some\<close> stops at the first element the callback accepts; \<open>toLowerCase\<close> is a method of
  strings only, so the callback raises a TypeError on any other element it reaches.
\<close>

fun some_invalid :: "(string \<Rightarrow> string) \<Rightarrow> jsvalue list \<Rightarrow> exn + bool" where
  "some_invalid unicode [] = Inr False"
| "some_invalid unicode (JStr topping # rest) =
     (if toLowerCase unicode topping \<in> set INVALID_TOPPINGS then Inr True
      else some_invalid unicode rest)"
| "some_invalid unicode (v # rest) = Inl (TypeError ''topping.toLowerCase is not a function'')"

text \<open>The callback given to \<open>refine\<close>; \<open>some\<close> is a method of arrays only.\<close>

fun toppings_refinement :: "(string \<Rightarrow> string) \<Rightarrow> jsvalue \<Rightarrow> exn + bool" where
  "toppings_refinement unicode JUndefined = Inr True"
| "toppings_refinement unicode (JArr toppings) =
     (case some_invalid unicode toppings of Inl e \<Rightarrow> Inl e | Inr found \<Rightarrow> Inr (\<not> found))"
| "toppings_refinement unicode v = Inl (TypeError ''toppings.some is not a function'')"

text \<open>The two messages of the schema that are built from several parts.\<close>

definition crust_message :: string where
  "crust_message =
     ''crust must be either '' @ [CHR 0x22] @ ''stuffed'' @ [CHR 0x22] @ '' or '' @
     [CHR 0x22] @ ''normal'' @ [CHR 0x22]"

definition toppings_message :: string where
  "toppings_message =
     ''the following toppings are invalid: '' @ join '', '' INVALID_TOPPINGS @ ''.''"

definition PizzaSchema :: "(string \<Rightarrow> string) \<Rightarrow> schema" where
  "PizzaSchema unicode = ZodObject
     [(''size'', ZodNumber [GreaterThan 0 ''pizza size must be a positive number'']),
      (''crust'', ZodEnum [''stuffed'', ''normal''] crust_message),
      (''isDeepDish'', ZodDefault (ZodOptional ZodBoolean) (JBool False)),
      (''toppings'',
         ZodRefine (ZodOptional (ZodArray ZodString)) (toppings_refinement unicode)
           toppings_message)]"

datatype PizzaValidationResult = IsPizza jsvalue | NotPizza string

fun show_seg :: "pathseg \<Rightarrow> string" where
  "show_seg (Key k) = k"
| "show_seg (Idx i) = show_nat i"

text \<open>The text of one issue: its path, joined with dots and followed by a colon, when it has one.\<close>

definition error_message :: "issue \<Rightarrow> string" where
  "error_message err =
     (if length (path err) > 0 then join ''.'' (map show_seg (path err)) @ '': '' else '''')
     @ message err"

definition validatePizza :: "(string \<Rightarrow> string) \<Rightarrow> jsvalue \<Rightarrow> exn + PizzaValidationResult" where
  "validatePizza unicode input =
     (case safeParse (PizzaSchema unicode) input of
        Inl e \<Rightarrow> Inl e
      | Inr (Success d) \<Rightarrow> Inr (IsPizza d)
      | Inr (Failure issues) \<Rightarrow> Inr (NotPizza (join ''; '' (map error_message issues))))"

section \<open>cli.ts\<close>

text \<open>
  The command line tool reads the world through three builtins, which are parameters of
  the model: \<open>parseArgs\<close> (its result is the argument of \<open>main\<close>), \<open>readFileSync\<close> and
  \<open>JSON.parse\<close>. \<open>readFileSync\<close> returns the content of the file or throws an error with a
  code and a message; \<open>JSON.parse\<close> returns a value or throws a SyntaxError with a message.
\<close>

record parsed_args =
  values_help :: bool
  positionals :: "string list"

datatype read_outcome = Content string | ErrnoError string string

record process_output =
  stdout :: "string list"
  stderr :: "string list"
  exit_code :: nat

text \<open>
  \<open>JSON.stringify(value, null, 2)\<close>. The text of a finite number is a parameter
  (\<open>Number.prototype.toString\<close>); a number that is not finite is written \<open>null\<close>. A
  string is quoted with the escapes of JSON. A property whose value is \<open>undefined\<close> is
  left out; an array element that is \<open>undefined\<close> is written \<open>null\<close>. The result is
  \<open>None\<close> where \<open>JSON.stringify\<close> returns \<open>undefined\<close>.
\<close>

definition hex_digit :: "nat \<Rightarrow> char" where
  "hex_digit n = ''0123456789abcdef'' ! (n mod 16)"

definition quote_char :: "char \<Rightarrow> string" where
  "quote_char c =
     (if c = CHR 0x08 then [CHR 0x5C, CHR ''b'']
      else if c = CHR 0x09 then [CHR 0x5C, CHR ''t'']
      else if c = CHR 0x0A then [CHR 0x5C, CHR ''n'']
      else if c = CHR 0x0C then [CHR 0x5C, CHR ''f'']
      else if c = CHR 0x0D then [CHR 0x5C, CHR ''r'']
      else if c = CHR 0x22 then [CHR 0x5C, CHR 0x22]
      else if c = CHR 0x5C then [CHR 0x5C, CHR 0x5C]
      else if (of_char c :: nat) < 32
        then [CHR 0x5C, CHR ''u'', CHR ''0'', CHR ''0'',
              hex_digit ((of_char c :: nat) div 16), hex_digit (of_char c :: nat)]
      else [c])"

definition QuoteJSONString :: "string \<Rightarrow> string" where
  "QuoteJSONString s = [CHR 0x22] @ concat (map quote_char s) @ [CHR 0x22]"

fun serialize :: "(real \<Rightarrow> string) \<Rightarrow> string \<Rightarrow> jsvalue \<Rightarrow> string option" where
  "serialize num indent JUndefined = None"
| "serialize num indent JNull = Some ''null''"
| "serialize num indent (JBool b) = Some (if b then ''true'' else ''false'')"
| "serialize num indent (JNum (Finite r)) = Some (num r)"
| "serialize num indent (JNum n) = Some ''null''"
| "serialize num indent (JStr s) = Some (QuoteJSONString s)"
| "serialize num indent (JArr vs) =
     (if vs = [] then Some ''[]''
      else Some (''['' @ [CHR 0x0A] @ (indent @ ''  '') @
        join ('','' @ [CHR 0x0A] @ (indent @ ''  ''))
          (map (\<lambda>v. case serialize num (indent @ ''  '') v of None \<Rightarrow> ''null'' | Some t \<Rightarrow> t) vs)
        @ [CHR 0x0A] @ indent @ '']''))"
| "serialize num indent (JObj kvs) =
     (let partial = concat (map (\<lambda>(k, v).
            case serialize num (indent @ ''  '') v of
              None \<Rightarrow> []
            | Some t \<Rightarrow> [QuoteJSONString k @ '': '' @ t]) kvs)
      in if partial = [] then Some ''{}''
         else Some (''{'' @ [CHR 0x0A] @ (indent @ ''  '') @
           join ('','' @ [CHR 0x0A] @ (indent @ ''  '')) partial
           @ [CHR 0x0A] @ indent @ ''}''))"

definition JSON_stringify :: "(real \<Rightarrow> string) \<Rightarrow> jsvalue \<Rightarrow> string option" where
  "JSON_stringify num v = serialize num [] v"

text \<open>What \<open>console.log\<close> prints for the result of \<open>JSON.stringify\<close>.\<close>

definition printed :: "string option \<Rightarrow> string" where
  "printed t = (case t of None \<Rightarrow> ''undefined'' | Some s \<Rightarrow> s)"

definition usage :: "string list" where
  "usage =
     [''usage: pizza-validator <json-file>'',
      ''validates a JSON file to check if it contains a valid pizza.'',
      [CHR 0x0A] @ ''options:'',
      ''  -h, --help    show this help message'']"

text \<open>
  \<open>main\<close>: every \<open>console.log\<close> adds a line to the standard output, every \<open>console.error\<close>
  a line to the standard error, and \<open>process.exit\<close> ends the run with its code. The two
  banners start with the check mark U+2713 and the ballot cross U+2717, three bytes each
  in UTF-8. An exception of the validator would be caught as an error that is neither a
  missing file nor a SyntaxError.
\<close>

definition main ::
  "(string \<Rightarrow> string) \<Rightarrow> (real \<Rightarrow> string) \<Rightarrow> (string \<Rightarrow> read_outcome) \<Rightarrow>
   (string \<Rightarrow> string + jsvalue) \<Rightarrow> parsed_args \<Rightarrow> process_output" where
  "main unicode num readFileSync JSON_parse args =
     (if values_help args \<or> length (positionals args) = 0
      then \<lparr>stdout = usage, stderr = [], exit_code = 0\<rparr>
      else
        let filePath = positionals args ! 0 in
        (case readFileSync filePath of
           ErrnoError errcode msg \<Rightarrow>
             if errcode = ''ENOENT''
             then \<lparr>stdout = [],
                   stderr = [''Error: File '' @ [CHR 0x22] @ filePath @ [CHR 0x22] @ '' not found.''],
                   exit_code = 1\<rparr>
             else \<lparr>stdout = [],
                   stderr = [''Error reading file '' @ [CHR 0x22] @ filePath @ [CHR 0x22] @ '':'', msg],
                   exit_code = 1\<rparr>
         | Content fileContent \<Rightarrow>
             (case JSON_parse fileContent of
                Inl msg \<Rightarrow>
                  \<lparr>stdout = [],
                   stderr = [''Error: Invalid JSON in file '' @ [CHR 0x22] @ filePath @ [CHR 0x22] @ ''.'',
                             msg],
                   exit_code = 1\<rparr>
              | Inr jsonData \<Rightarrow>
                  (case validatePizza unicode jsonData of
                     Inl (TypeError msg) \<Rightarrow>
                       \<lparr>stdout = [],
                        stderr = [''Error reading file '' @ [CHR 0x22] @ filePath @ [CHR 0x22] @ '':'',
                                  msg],
                        exit_code = 1\<rparr>
                   | Inr (IsPizza pizza) \<Rightarrow>
                       \<lparr>stdout = [[CHR 0xE2, CHR 0x9C, CHR 0x93] @ '' Valid pizza!'',
                                  printed (JSON_stringify num pizza)],
                        stderr = [], exit_code = 0\<rparr>
                   | Inr (NotPizza errors) \<Rightarrow>
                       \<lparr>stdout = [],
                        stderr = [[CHR 0xE2, CHR 0x9C, CHR 0x97] @ '' Invalid pizza:'', errors],
                        exit_code = 1\<rparr>))))"

section \<open>The schema, field by field\<close>

text \<open>
  What the schema reports for each field, written out as explicit checks.
  Lemma \<open>run_PizzaSchema_object\<close> shows that \<open>run (PizzaSchema unicode)\<close> computes exactly
  these.
\<close>

fun size_issues :: "jsvalue \<Rightarrow> issue list" where
  "size_issues (JNum (Finite r)) =
     (if 0 < r then []
      else [\<lparr>code = too_small, path = [],
             message = ''pizza size must be a positive number'', continue = True\<rparr>])"
| "size_issues v = [invalid_type_issue ''number'' v]"

definition crust_issues :: "jsvalue \<Rightarrow> issue list" where
  "crust_issues v =
     (if v = JStr ''stuffed'' \<or> v = JStr ''normal'' then []
      else [\<lparr>code = invalid_value, path = [], message = crust_message, continue = False\<rparr>])"

definition isDeepDish_issues :: "jsvalue \<Rightarrow> issue list" where
  "isDeepDish_issues v =
     (case v of JUndefined \<Rightarrow> [] | JBool b \<Rightarrow> [] | _ \<Rightarrow> [invalid_type_issue ''boolean'' v])"

fun is_string :: "jsvalue \<Rightarrow> bool" where
  "is_string (JStr s) = True"
| "is_string v = False"

text \<open>The issues of the elements of an array of toppings, the first element at index \<open>i\<close>.\<close>

fun element_issues :: "nat \<Rightarrow> jsvalue list \<Rightarrow> issue list" where
  "element_issues i [] = []"
| "element_issues i (v # vs) =
     (if is_string v then [] else [(invalid_type_issue ''string'' v)\<lparr>path := [Idx i]\<rparr>])
     @ element_issues (Suc i) vs"

text \<open>A topping is forbidden when its lower-case form is in the list.\<close>

fun forbidden :: "(string \<Rightarrow> string) \<Rightarrow> jsvalue \<Rightarrow> bool" where
  "forbidden unicode (JStr s) = (toLowerCase unicode s \<in> set INVALID_TOPPINGS)"
| "forbidden unicode v = False"

definition toppings_issues :: "(string \<Rightarrow> string) \<Rightarrow> jsvalue \<Rightarrow> issue list" where
  "toppings_issues unicode v =
     (case v of
        JUndefined \<Rightarrow> []
      | JArr vs \<Rightarrow>
          if list_all is_string vs
          then (if list_ex (forbidden unicode) vs
                then [\<lparr>code = custom, path = [], message = toppings_message, continue = True\<rparr>]
                else [])
          else element_issues 0 vs
      | _ \<Rightarrow> [invalid_type_issue ''array'' v])"

text \<open>
  The properties of the parsed object: a declared key the input has, with the input's
  value, and \<open>isDeepDish\<close> always (with \<open>false\<close> where the input gives nothing).
\<close>

definition own_prop :: "(string \<times> jsvalue) list \<Rightarrow> string \<Rightarrow> (string \<times> jsvalue) list" where
  "own_prop kvs k = (if has_prop kvs k then [(k, get_prop kvs k)] else [])"

definition parsed_props :: "(string \<times> jsvalue) list \<Rightarrow> (string \<times> jsvalue) list" where
  "parsed_props kvs =
     own_prop kvs ''size'' @ own_prop kvs ''crust'' @
     [(''isDeepDish'',
         if get_prop kvs ''isDeepDish'' = JUndefined then JBool False
         else get_prop kvs ''isDeepDish'')] @
     own_prop kvs ''toppings''"

definition object_issues :: "(string \<Rightarrow> string) \<Rightarrow> (string \<times> jsvalue) list \<Rightarrow> issue list" where
  "object_issues unicode kvs =
     prefixIssues (Key ''size'') (size_issues (get_prop kvs ''size'')) @
     prefixIssues (Key ''crust'') (crust_issues (get_prop kvs ''crust'')) @
     prefixIssues (Key ''isDeepDish'') (isDeepDish_issues (get_prop kvs ''isDeepDish'')) @
     prefixIssues (Key ''toppings'') (toppings_issues unicode (get_prop kvs ''toppings''))"

section \<open>The rules of the validator\<close>

text \<open>
  The four rules: \<open>size\<close> is a finite number above zero; \<open>crust\<close> is one of the two
  names; \<open>isDeepDish\<close>, when present, is a boolean; \<open>toppings\<close>, when present, is a list of
  strings none of which is forbidden.
\<close>

definition declared_fields :: "string list" where
  "declared_fields = [''size'', ''crust'', ''isDeepDish'', ''toppings'']"

fun size_rule :: "jsvalue \<Rightarrow> bool" where
  "size_rule (JNum (Finite r)) = (0 < r)"
| "size_rule v = False"

definition crust_rule :: "jsvalue \<Rightarrow> bool" where
  "crust_rule v = (v = JStr ''stuffed'' \<or> v = JStr ''normal'')"

fun isDeepDish_rule :: "jsvalue \<Rightarrow> bool" where
  "isDeepDish_rule JUndefined = True"
| "isDeepDish_rule (JBool b) = True"
| "isDeepDish_rule v = False"

fun toppings_rule :: "(string \<Rightarrow> string) \<Rightarrow> jsvalue \<Rightarrow> bool" where
  "toppings_rule unicode JUndefined = True"
| "toppings_rule unicode (JArr vs) =
     (list_all is_string vs \<and> \<not> list_ex (forbidden unicode) vs)"
| "toppings_rule unicode v = False"

text \<open>
  The number of violations of a field: one for a broken rule, and for a list of toppings
  with elements that are not strings, one for each such element (a wrong type ends the
  checks of its field, so the content of such a list is not checked).
\<close>

definition violations :: "(string \<Rightarrow> string) \<Rightarrow> (string \<times> jsvalue) list \<Rightarrow> string \<Rightarrow> nat" where
  "violations unicode kvs k =
     (if k = ''size'' then (if size_rule (get_prop kvs k) then 0 else 1)
      else if k = ''crust'' then (if crust_rule (get_prop kvs k) then 0 else 1)
      else if k = ''isDeepDish'' then (if isDeepDish_rule (get_prop kvs k) then 0 else 1)
      else if k = ''toppings'' then
        (case get_prop kvs k of
           JArr vs \<Rightarrow>
             if list_all is_string vs then (if list_ex (forbidden unicode) vs then 1 else 0)
             else length (filter (\<lambda>v. \<not> is_string v) vs)
         | v \<Rightarrow> if toppings_rule unicode v then 0 else 1)
      else 0)"

text \<open>The field an issue is about: the first key of its path.\<close>

definition issue_field :: "issue \<Rightarrow> string option" where
  "issue_field i = (case path i of Key k # rest \<Rightarrow> Some k | _ \<Rightarrow> None)"

section \<open>Texts the properties are stated with\<close>

text \<open>
  The decimal numeral of a number: a string of digits, without a leading zero but for
  zero itself, whose value is the number.
\<close>

definition is_digit :: "char \<Rightarrow> bool" where
  "is_digit c = (48 \<le> (of_char c :: nat) \<and> (of_char c :: nat) \<le> 57)"

definition decimal_value :: "string \<Rightarrow> nat" where
  "decimal_value ds = foldl (\<lambda>a c. 10 * a + ((of_char c :: nat) - 48)) 0 ds"

definition decimal_numeral :: "string \<Rightarrow> nat \<Rightarrow> bool" where
  "decimal_numeral ds n =
     (ds \<noteq> [] \<and> list_all is_digit ds \<and> (ds = ''0'' \<or> hd ds \<noteq> CHR ''0'') \<and>
      decimal_value ds = n)"

text \<open>
  A string as JSON writes it: between double quotes, with a backslash escape for the
  double quote, the backslash and the control characters (a short one for backspace, tab,
  line feed, form feed and carriage return, \<open>\u00XX\<close> for the others).
\<close>

definition json_escapes :: "(char \<times> string) list" where
  "json_escapes =
     [(CHR 0x22, [CHR 0x5C, CHR 0x22]), (CHR 0x5C, [CHR 0x5C, CHR 0x5C]),
      (CHR 0x08, [CHR 0x5C, CHR ''b'']), (CHR 0x09, [CHR 0x5C, CHR ''t'']),
      (CHR 0x0A, [CHR 0x5C, CHR ''n'']), (CHR 0x0C, [CHR 0x5C, CHR ''f'']),
      (CHR 0x0D, [CHR 0x5C, CHR ''r''])]"

definition json_char :: "char \<Rightarrow> string" where
  "json_char c =
     (case map_of json_escapes c of
        Some e \<Rightarrow> e
      | None \<Rightarrow>
          if (of_char c :: nat) < 32
          then [CHR 0x5C, CHR ''u'', CHR ''0'', CHR ''0''] @
               (if (of_char c :: nat) < 16 then ''0'' else ''1'') @
               [''0123456789abcdef'' ! ((of_char c :: nat) mod 16)]
          else [c])"

definition json_string :: "string \<Rightarrow> string" where
  "json_string s = [CHR 0x22] @ concat (map json_char s) @ [CHR 0x22]"

text \<open>
  The record of a pizza as JSON with an indent of two spaces: one line for each of size,
  crust and isDeepDish, then, when the pizza has a list of toppings, the toppings key
  with \<open>[]\<close> for the empty list or one line for each topping with an indent of four
  spaces. Without a list of toppings the text has no toppings key.
\<close>

fun toppings_text :: "string list \<Rightarrow> string" where
  "toppings_text [] = ''[]''"
| "toppings_text (t # ts) =
     ''['' @ [CHR 0x0A] @ ''    '' @ json_string t @
     concat (map (\<lambda>t'. '','' @ [CHR 0x0A] @ ''    '' @ json_string t') ts) @
     [CHR 0x0A] @ ''  ]''"

definition pizza_text :: "string \<Rightarrow> string \<Rightarrow> bool \<Rightarrow> string list option \<Rightarrow> string" where
  "pizza_text size_text crust deep toppings =
     ''{'' @ [CHR 0x0A] @
     ''  '' @ [CHR 0x22] @ ''size'' @ [CHR 0x22] @ '': '' @ size_text @ '','' @ [CHR 0x0A] @
     ''  '' @ [CHR 0x22] @ ''crust'' @ [CHR 0x22] @ '': '' @ json_string crust @ '','' @
       [CHR 0x0A] @
     ''  '' @ [CHR 0x22] @ ''isDeepDish'' @ [CHR 0x22] @ '': '' @
       (if deep then ''true'' else ''false'') @
     (case toppings of
        None \<Rightarrow> []
      | Some ts \<Rightarrow>
          '','' @ [CHR 0x0A] @ ''  '' @ [CHR 0x22] @ ''toppings'' @ [CHR 0x22] @ '': '' @
          toppings_text ts) @
     [CHR 0x0A] @ ''}''"

text \<open>
  The record of a validated pizza: size, crust and isDeepDish, then the toppings when
  there is a list of them.
\<close>

definition pizza_record :: "real \<Rightarrow> string \<Rightarrow> bool \<Rightarrow> string list option \<Rightarrow> jsvalue" where
  "pizza_record s c b toppings =
     JObj ([(''size'', JNum (Finite s)), (''crust'', JStr c), (''isDeepDish'', JBool b)] @
           (case toppings of None \<Rightarrow> [] | Some ts \<Rightarrow> [(''toppings'', JArr (map JStr ts))]))"

text \<open>
  A table for the Unicode part of \<open>toLowerCase\<close> that changes nothing; it stands for the
  table in the examples whose strings are all ASCII, where the table is never consulted.
  The second one sends the word with the Kelvin sign (bytes E2 84 AA) to its lower-case
  form, as the Unicode mapping of that sign does.
\<close>

definition ascii_only :: "string \<Rightarrow> string" where
  "ascii_only s = s"

definition kelvin :: "string \<Rightarrow> string" where
  "kelvin s =
     (if s = ''chic'' @ [CHR 0xE2, CHR 0x84, CHR 0xAA] @ ''en'' then ''chicken'' else s)"

section \<open>Properties of the schema library\<close>

lemma run_size:
  "run (ZodNumber [GreaterThan 0 ''pizza size must be a positive number'']) v =
     Inr (size_issues v, v)"
proof (cases v)
  case (JNum n)
  then show ?thesis by (cases n) simp_all
qed simp_all

lemma run_crust:
  "run (ZodEnum [''stuffed'', ''normal''] crust_message) v = Inr (crust_issues v, v)"
  by (cases v) (auto simp add: crust_issues_def invalid_value_issue_def)

lemma run_isDeepDish:
  "run (ZodDefault (ZodOptional ZodBoolean) (JBool False)) v =
     Inr (isDeepDish_issues v, if v = JUndefined then JBool False else v)"
  by (cases v) (simp_all add: isDeepDish_issues_def)

lemma handleArrayResults_strings:
  "handleArrayResults i (map (run ZodString) vs) = Inr (element_issues i vs, vs)"
proof (induction vs arbitrary: i)
  case Nil
  show ?case by simp
next
  case (Cons v vs)
  show ?case
    by (cases v) (simp_all add: Cons.IH prefixIssues_def invalid_type_issue_def)
qed

lemma element_issues_empty: "(element_issues i vs = []) = list_all is_string vs"
  by (induction vs arbitrary: i) auto

lemma aborted_element_issues: "aborted (element_issues i vs) = (\<not> list_all is_string vs)"
  by (induction vs arbitrary: i) (auto simp add: aborted_def invalid_type_issue_def)

lemma some_invalid_strings:
  "list_all is_string vs \<Longrightarrow> some_invalid unicode vs = Inr (list_ex (forbidden unicode) vs)"
proof (induction vs)
  case Nil
  show ?case by simp
next
  case (Cons v vs)
  then show ?case by (cases v) simp_all
qed

lemma run_toppings:
  "run (ZodRefine (ZodOptional (ZodArray ZodString)) (toppings_refinement unicode)
          toppings_message) v =
     Inr (toppings_issues unicode v, v)"
proof (cases v)
  case (JArr vs)
  show ?thesis
  proof (cases "list_all is_string vs")
    case True
    then show ?thesis
      using JArr
      by (simp add: handleArrayResults_strings aborted_element_issues toppings_issues_def
          some_invalid_strings element_issues_empty)
  next
    case False
    then show ?thesis
      using JArr
      by (simp add: handleArrayResults_strings aborted_element_issues toppings_issues_def)
  qed
qed (simp_all add: toppings_issues_def aborted_def invalid_type_issue_def)

lemma own_prop_get:
  "(if get_prop kvs k = JUndefined then (if has_prop kvs k then [(k, JUndefined)] else [])
    else [(k, get_prop kvs k)]) = own_prop kvs k"
  by (auto simp add: own_prop_def get_prop_def has_prop_def split: option.splits)

lemma run_object:
  "run (ZodObject shape) (JObj kvs) =
     (case handlePropertyResults kvs (map (\<lambda>(k, s). (k, run s (get_prop kvs k))) shape) of
        Inl e \<Rightarrow> Inl e
      | Inr (iss, out) \<Rightarrow> Inr (iss, JObj out))"
  by simp

lemma run_PizzaSchema_object:
  "run (PizzaSchema unicode) (JObj kvs) = Inr (object_issues unicode kvs, JObj (parsed_props kvs))"
  unfolding PizzaSchema_def run_object
  by (simp add: run_size run_crust run_isDeepDish run_toppings own_prop_get
      object_issues_def parsed_props_def del: run.simps)

lemma run_PizzaSchema_other:
  "\<forall>kvs. v \<noteq> JObj kvs \<Longrightarrow>
   run (PizzaSchema unicode) v = Inr ([invalid_type_issue ''object'' v], v)"
proof (cases v)
  case (JNum n)
  then show ?thesis by (cases n) (simp_all add: PizzaSchema_def)
qed (simp_all add: PizzaSchema_def)

lemma safeParse_object:
  "safeParse (PizzaSchema unicode) (JObj kvs) =
     Inr (if object_issues unicode kvs = [] then Success (JObj (parsed_props kvs))
          else Failure (object_issues unicode kvs))"
  by (simp add: safeParse_def run_PizzaSchema_object)

lemma validatePizza_object:
  "validatePizza unicode (JObj kvs) =
     Inr (if object_issues unicode kvs = [] then IsPizza (JObj (parsed_props kvs))
          else NotPizza (join ''; '' (map error_message (object_issues unicode kvs))))"
  by (simp add: validatePizza_def safeParse_object)

lemma safeParse_other:
  "\<forall>kvs. v \<noteq> JObj kvs \<Longrightarrow>
   safeParse (PizzaSchema unicode) v = Inr (Failure [invalid_type_issue ''object'' v])"
  by (simp add: safeParse_def run_PizzaSchema_other)

lemma validatePizza_other:
  "\<forall>kvs. v \<noteq> JObj kvs \<Longrightarrow>
   validatePizza unicode v =
     Inr (NotPizza (''Invalid input: expected object, received '' @ parsedType v))"
  by (simp add: validatePizza_def safeParse_other error_message_def invalid_type_issue_def)

lemma size_issues_empty: "(size_issues v = []) = size_rule v"
proof (cases v)
  case (JNum n)
  then show ?thesis by (cases n) simp_all
qed simp_all

lemma crust_issues_empty: "(crust_issues v = []) = crust_rule v"
  by (simp add: crust_issues_def crust_rule_def)

lemma isDeepDish_issues_empty: "(isDeepDish_issues v = []) = isDeepDish_rule v"
  by (cases v) (simp_all add: isDeepDish_issues_def)

lemma toppings_issues_empty: "(toppings_issues unicode v = []) = toppings_rule unicode v"
  by (cases v) (auto simp add: toppings_issues_def element_issues_empty)

lemma object_issues_empty:
  "(object_issues unicode kvs = []) =
     (size_rule (get_prop kvs ''size'') \<and> crust_rule (get_prop kvs ''crust'') \<and>
      isDeepDish_rule (get_prop kvs ''isDeepDish'') \<and>
      toppings_rule unicode (get_prop kvs ''toppings''))"
  by (simp add: object_issues_def prefixIssues_def size_issues_empty crust_issues_empty
      isDeepDish_issues_empty toppings_issues_empty)

lemma get_prop_absent: "\<not> has_prop kvs k \<Longrightarrow> get_prop kvs k = JUndefined"
  by (simp add: has_prop_def get_prop_def)

lemma list_all_is_string_map: "list_all is_string (map JStr names)"
  by (induction names) simp_all

lemma list_ex_forbidden_map:
  "list_ex (forbidden unicode) (map JStr names) =
     (\<exists>n \<in> set names. toLowerCase unicode n \<in> set INVALID_TOPPINGS)"
  by (induction names) simp_all

lemma toppings_message_text:
  "toppings_message = ''the following toppings are invalid: spinach, mushroom, chicken, turkey.''"
  by (simp add: toppings_message_def INVALID_TOPPINGS_def)

lemma toLowerCase_ascii:
  "list_all is_ascii s \<Longrightarrow> toLowerCase unicode s = map lower_char s"
  by (simp add: toLowerCase_def)

section \<open>The validator\<close>

text \<open>
  C1. An input object whose size is a finite number above zero, whose crust is "stuffed"
  or "normal", whose isDeepDish, if present, is a boolean, and whose toppings, if present,
  is a list of strings none of which is forbidden, is accepted. The returned pizza has the
  supplied size, crust, isDeepDish and toppings unchanged (the list of toppings as it was
  given, in the same order), and isDeepDish is false when the input has none.
\<close>

theorem validatePizza_accepts_valid:
  assumes "get_prop kvs ''size'' = JNum (Finite s)" and "0 < s"
    and "get_prop kvs ''crust'' = JStr c" and "c = ''stuffed'' \<or> c = ''normal''"
    and "has_prop kvs ''isDeepDish'' \<longrightarrow> (\<exists>b. get_prop kvs ''isDeepDish'' = JBool b)"
    and "has_prop kvs ''toppings'' \<longrightarrow>
           (\<exists>names. get_prop kvs ''toppings'' = JArr (map JStr names) \<and>
              (\<forall>n \<in> set names. toLowerCase unicode n \<notin> set INVALID_TOPPINGS))"
  shows "validatePizza unicode (JObj kvs) =
           Inr (IsPizza (JObj
             ([(''size'', JNum (Finite s)), (''crust'', JStr c),
               (''isDeepDish'',
                  if has_prop kvs ''isDeepDish'' then get_prop kvs ''isDeepDish''
                  else JBool False)] @
              (if has_prop kvs ''toppings'' then [(''toppings'', get_prop kvs ''toppings'')]
               else []))))"
proof -
  have deep: "isDeepDish_rule (get_prop kvs ''isDeepDish'')"
    using assms(5) by (cases "has_prop kvs ''isDeepDish''") (auto simp add: get_prop_absent)
  have top: "toppings_rule unicode (get_prop kvs ''toppings'')"
    using assms(6)
    by (cases "has_prop kvs ''toppings''")
      (auto simp add: get_prop_absent list_all_is_string_map list_ex_forbidden_map)
  have ok: "object_issues unicode kvs = []"
    using assms(1-4) deep top by (simp add: object_issues_empty crust_rule_def)
  have present: "has_prop kvs ''size''" "has_prop kvs ''crust''"
    using assms(1,3) by (auto simp add: has_prop_def get_prop_def split: option.splits)
  have dflt: "(if get_prop kvs ''isDeepDish'' = JUndefined then JBool False
               else get_prop kvs ''isDeepDish'') =
              (if has_prop kvs ''isDeepDish'' then get_prop kvs ''isDeepDish'' else JBool False)"
    using assms(5) by (auto simp add: get_prop_absent)
  show ?thesis
    using ok present assms(1,3)
    by (simp add: validatePizza_object parsed_props_def own_prop_def dflt)
qed

theorem validatePizza_accepts_valid_witness:
  "\<forall>unicode.
     validatePizza unicode
       (JObj [(''size'', JNum (Finite 12)), (''crust'', JStr ''normal''),
              (''toppings'', JArr [JStr ''pepperoni'', JStr ''bacon''])]) =
     Inr (IsPizza (JObj [(''size'', JNum (Finite 12)), (''crust'', JStr ''normal''),
                         (''isDeepDish'', JBool False),
                         (''toppings'', JArr [JStr ''pepperoni'', JStr ''bacon''])]))"
proof
  fix unicode
  have low: "toLowerCase unicode ''pepperoni'' = ''pepperoni''"
    "toLowerCase unicode ''bacon'' = ''bacon''"
    by (simp_all add: toLowerCase_def is_ascii_def lower_char_def)
  show "validatePizza unicode
       (JObj [(''size'', JNum (Finite 12)), (''crust'', JStr ''normal''),
              (''toppings'', JArr [JStr ''pepperoni'', JStr ''bacon''])]) =
     Inr (IsPizza (JObj [(''size'', JNum (Finite 12)), (''crust'', JStr ''normal''),
                         (''isDeepDish'', JBool False),
                         (''toppings'', JArr [JStr ''pepperoni'', JStr ''bacon''])]))"
    using validatePizza_accepts_valid
      [of "[(''size'', JNum (Finite 12)), (''crust'', JStr ''normal''),
            (''toppings'', JArr [JStr ''pepperoni'', JStr ''bacon''])]"
          12 "''normal''" unicode]
    by (simp add: get_prop_def has_prop_def INVALID_TOPPINGS_def low
        exI [of _ "[''pepperoni'', ''bacon'']"])
qed

text \<open>
  The claim as written, for every number above zero, fails at the positive infinity
  (what \<open>JSON.parse\<close> yields for \<open>1e999\<close>): the number schema takes the finite numbers
  only, and the pizza is rejected.
\<close>

theorem infinite_size_counterexample:
  "\<not> (\<exists>pizza. validatePizza ascii_only
          (JObj [(''size'', JNum PosInfinity), (''crust'', JStr ''normal'')]) =
        Inr (IsPizza pizza))"
  by (simp add: validatePizza_object object_issues_empty get_prop_def)

text \<open>
  C2. An input that is valid but for a topping whose lower-case form is spinach, mushroom,
  chicken or turkey is rejected with one issue, on the toppings field, whose message is
  "the following toppings are invalid: spinach, mushroom, chicken, turkey." whichever
  and however many forbidden toppings the list has. The error string is that message
  after the path of the field.
\<close>

theorem forbidden_topping_rejected:
  assumes "get_prop kvs ''size'' = JNum (Finite s)" and "0 < s"
    and "get_prop kvs ''crust'' = JStr c" and "c = ''stuffed'' \<or> c = ''normal''"
    and "has_prop kvs ''isDeepDish'' \<longrightarrow> (\<exists>b. get_prop kvs ''isDeepDish'' = JBool b)"
    and "get_prop kvs ''toppings'' = JArr (map JStr names)"
    and "\<exists>n \<in> set names. toLowerCase unicode n \<in> set INVALID_TOPPINGS"
  shows "safeParse (PizzaSchema unicode) (JObj kvs) =
           Inr (Failure [\<lparr>code = custom, path = [Key ''toppings''],
              message = ''the following toppings are invalid: spinach, mushroom, chicken, turkey.'',
              continue = True\<rparr>]) \<and>
         validatePizza unicode (JObj kvs) =
           Inr (NotPizza
             ''toppings: the following toppings are invalid: spinach, mushroom, chicken, turkey.'')"
proof -
  have deep: "isDeepDish_issues (get_prop kvs ''isDeepDish'') = []"
    using assms(5)
    by (cases "has_prop kvs ''isDeepDish''") (auto simp add: get_prop_absent isDeepDish_issues_def)
  have top: "toppings_issues unicode (get_prop kvs ''toppings'') =
               [\<lparr>code = custom, path = [], message = toppings_message, continue = True\<rparr>]"
    using assms(6,7) by (simp add: toppings_issues_def list_all_is_string_map list_ex_forbidden_map)
  have iss: "object_issues unicode kvs =
               [\<lparr>code = custom, path = [Key ''toppings''], message = toppings_message,
                 continue = True\<rparr>]"
    using assms(1-4) deep top
    by (auto simp add: object_issues_def prefixIssues_def crust_issues_def)
  show ?thesis
    by (simp add: safeParse_object validatePizza_object iss error_message_def
        toppings_message_text)
qed

theorem forbidden_topping_rejected_witness:
  "(\<forall>unicode.
      validatePizza unicode
        (JObj [(''size'', JNum (Finite 12)), (''crust'', JStr ''normal''),
               (''toppings'', JArr [JStr ''SPINACH'', JStr ''MuShRoOm'', JStr ''bacon''])]) =
      Inr (NotPizza
        ''toppings: the following toppings are invalid: spinach, mushroom, chicken, turkey.'')) \<and>
   validatePizza kelvin
     (JObj [(''size'', JNum (Finite 12)), (''crust'', JStr ''normal''),
            (''toppings'', JArr [JStr (''chic'' @ [CHR 0xE2, CHR 0x84, CHR 0xAA] @ ''en'')])]) =
   Inr (NotPizza
     ''toppings: the following toppings are invalid: spinach, mushroom, chicken, turkey.'')"
proof (intro conjI allI)
  fix unicode
  have "map lower_char ''SPINACH'' = ''spinach''"
    by code_simp
  then have low: "toLowerCase unicode ''SPINACH'' = ''spinach''"
    by (simp add: toLowerCase_def is_ascii_def)
  have bad: "\<exists>n \<in> set [''SPINACH'', ''MuShRoOm'', ''bacon''].
      toLowerCase unicode n \<in> set INVALID_TOPPINGS"
    by (simp add: low INVALID_TOPPINGS_def)
  show "validatePizza unicode
        (JObj [(''size'', JNum (Finite 12)), (''crust'', JStr ''normal''),
               (''toppings'', JArr [JStr ''SPINACH'', JStr ''MuShRoOm'', JStr ''bacon''])]) =
      Inr (NotPizza
        ''toppings: the following toppings are invalid: spinach, mushroom, chicken, turkey.'')"
    using forbidden_topping_rejected
      [of "[(''size'', JNum (Finite 12)), (''crust'', JStr ''normal''),
            (''toppings'', JArr [JStr ''SPINACH'', JStr ''MuShRoOm'', JStr ''bacon''])]"
          12 "''normal''" "[''SPINACH'', ''MuShRoOm'', ''bacon'']" unicode, OF _ _ _ _ _ _ bad]
    by (simp add: get_prop_def has_prop_def)
next
  have low: "toLowerCase kelvin (''chic'' @ [CHR 0xE2, CHR 0x84, CHR 0xAA] @ ''en'') = ''chicken''"
    by (simp add: toLowerCase_def is_ascii_def kelvin_def)
  have bad: "\<exists>n \<in> set [''chic'' @ [CHR 0xE2, CHR 0x84, CHR 0xAA] @ ''en''].
      toLowerCase kelvin n \<in> set INVALID_TOPPINGS"
    using low by (simp add: INVALID_TOPPINGS_def)
  show "validatePizza kelvin
     (JObj [(''size'', JNum (Finite 12)), (''crust'', JStr ''normal''),
            (''toppings'', JArr [JStr (''chic'' @ [CHR 0xE2, CHR 0x84, CHR 0xAA] @ ''en'')])]) =
   Inr (NotPizza
     ''toppings: the following toppings are invalid: spinach, mushroom, chicken, turkey.'')"
    using forbidden_topping_rejected
      [of "[(''size'', JNum (Finite 12)), (''crust'', JStr ''normal''),
            (''toppings'', JArr [JStr (''chic'' @ [CHR 0xE2, CHR 0x84, CHR 0xAA] @ ''en'')])]"
          12 "''normal''" "[''chic'' @ [CHR 0xE2, CHR 0x84, CHR 0xAA] @ ''en'']" kelvin,
        OF _ _ _ _ _ _ bad]
    by (simp add: get_prop_def has_prop_def)
qed

text \<open>
  C3. For an input object whose size is missing, is not a number, or is a number that is
  not a finite number above zero, the validation fails and the first message of the error
  string is about the size, after the path \<open>size: \<close>. For a finite number not above zero
  the message is "pizza size must be a positive number". For a missing size or a size
  that is not a number the message is the type error of the library, "Invalid input:
  expected number, received ..." with the type of what was received; for NaN and the
  infinities it is that type error too.
\<close>

theorem size_violation_reported_first:
  assumes "\<not> size_rule (get_prop kvs ''size'')"
  shows "\<exists>first others.
           validatePizza unicode (JObj kvs) =
             Inr (NotPizza (join ''; '' (first # others))) \<and>
           (case get_prop kvs ''size'' of
              JNum (Finite r) \<Rightarrow> first = ''size: pizza size must be a positive number''
            | JNum n \<Rightarrow>
                (\<exists>received. first = ''size: Invalid input: expected number, received '' @ received)
            | v \<Rightarrow> first = ''size: Invalid input: expected number, received '' @ parsedType v)"
proof -
  define rest where "rest =
     prefixIssues (Key ''crust'') (crust_issues (get_prop kvs ''crust'')) @
     prefixIssues (Key ''isDeepDish'') (isDeepDish_issues (get_prop kvs ''isDeepDish'')) @
     prefixIssues (Key ''toppings'') (toppings_issues unicode (get_prop kvs ''toppings''))"
  have "\<exists>i. size_issues (get_prop kvs ''size'') = [i] \<and> path i = [] \<and>
          (case get_prop kvs ''size'' of
             JNum (Finite r) \<Rightarrow>
               error_message (i\<lparr>path := [Key ''size'']\<rparr>) =
                 ''size: pizza size must be a positive number''
           | JNum n \<Rightarrow>
               (\<exists>received. error_message (i\<lparr>path := [Key ''size'']\<rparr>) =
                  ''size: Invalid input: expected number, received '' @ received)
           | v \<Rightarrow>
               error_message (i\<lparr>path := [Key ''size'']\<rparr>) =
                 ''size: Invalid input: expected number, received '' @ parsedType v)"
  proof (cases "get_prop kvs ''size''")
    case (JNum n)
    then show ?thesis
      using assms by (cases n) (simp_all add: error_message_def invalid_type_issue_def)
  qed (simp_all add: error_message_def invalid_type_issue_def)
  then obtain i where i: "size_issues (get_prop kvs ''size'') = [i]" "path i = []"
    and msg: "case get_prop kvs ''size'' of
             JNum (Finite r) \<Rightarrow>
               error_message (i\<lparr>path := [Key ''size'']\<rparr>) =
                 ''size: pizza size must be a positive number''
           | JNum n \<Rightarrow>
               (\<exists>received. error_message (i\<lparr>path := [Key ''size'']\<rparr>) =
                  ''size: Invalid input: expected number, received '' @ received)
           | v \<Rightarrow>
               error_message (i\<lparr>path := [Key ''size'']\<rparr>) =
                 ''size: Invalid input: expected number, received '' @ parsedType v"
    by blast
  have "object_issues unicode kvs = i\<lparr>path := [Key ''size'']\<rparr> # rest"
    using i by (simp add: object_issues_def rest_def prefixIssues_def)
  then have "validatePizza unicode (JObj kvs) =
      Inr (NotPizza (join ''; '' (error_message (i\<lparr>path := [Key ''size'']\<rparr>) #
                                  map error_message rest)))"
    by (simp add: validatePizza_object)
  then show ?thesis
    using msg by blast
qed

theorem size_violation_reported_first_witness:
  "\<forall>unicode.
     (\<exists>others.
        validatePizza unicode (JObj [(''size'', JNum (Finite (- 5))), (''crust'', JStr ''normal'')]) =
        Inr (NotPizza (join ''; '' (''size: pizza size must be a positive number'' # others)))) \<and>
     (\<exists>others.
        validatePizza unicode (JObj [(''size'', JStr ''12''), (''crust'', JStr ''normal'')]) =
        Inr (NotPizza (join ''; ''
          (''size: Invalid input: expected number, received string'' # others))))"
proof (intro allI conjI)
  fix unicode
  show "\<exists>others.
     validatePizza unicode (JObj [(''size'', JNum (Finite (- 5))), (''crust'', JStr ''normal'')]) =
     Inr (NotPizza (join ''; '' (''size: pizza size must be a positive number'' # others)))"
    using size_violation_reported_first
      [of "[(''size'', JNum (Finite (- 5))), (''crust'', JStr ''normal'')]" unicode]
    by (simp add: get_prop_def)
  show "\<exists>others.
     validatePizza unicode (JObj [(''size'', JStr ''12''), (''crust'', JStr ''normal'')]) =
     Inr (NotPizza (join ''; ''
       (''size: Invalid input: expected number, received string'' # others)))"
    using size_violation_reported_first
      [of "[(''size'', JStr ''12''), (''crust'', JStr ''normal'')]" unicode]
    by (simp add: get_prop_def)
qed

text \<open>
  The claim as written fails where the size is missing: the message is then the type error
  of the library, which does not contain the text of the custom message.
\<close>

theorem size_violation_counterexample:
  "validatePizza ascii_only (JObj [(''crust'', JStr ''normal'')]) =
     Inr (NotPizza ''size: Invalid input: expected number, received undefined'') \<and>
   \<not> sublist ''pizza size must be a positive number''
       ''size: Invalid input: expected number, received undefined''"
proof -
  have "\<not> sublist ''pizza size must be a positive number''
       ''size: Invalid input: expected number, received undefined''"
    by code_simp
  then show ?thesis
    by (simp add: validatePizza_object object_issues_def get_prop_def
        crust_issues_def isDeepDish_issues_def toppings_issues_def prefixIssues_def
        invalid_type_issue_def error_message_def)
qed

lemma issue_field_prefix: "map issue_field (prefixIssues (Key k) iss) = replicate (length iss) (Some k)"
  by (induction iss) (simp_all add: prefixIssues_def issue_field_def)

lemma length_element_issues:
  "length (element_issues i vs) = length (filter (\<lambda>v. \<not> is_string v) vs)"
  by (induction vs arbitrary: i) simp_all

lemma length_size_issues:
  "length (size_issues (get_prop kvs ''size'')) = violations unicode kvs ''size''"
proof (cases "get_prop kvs ''size''")
  case (JNum n)
  then show ?thesis by (cases n) (simp_all add: violations_def)
qed (simp_all add: violations_def)

lemma length_crust_issues:
  "length (crust_issues (get_prop kvs ''crust'')) = violations unicode kvs ''crust''"
  by (simp add: crust_issues_def violations_def crust_rule_def)

lemma length_isDeepDish_issues:
  "length (isDeepDish_issues (get_prop kvs ''isDeepDish'')) = violations unicode kvs ''isDeepDish''"
  by (cases "get_prop kvs ''isDeepDish''") (simp_all add: isDeepDish_issues_def violations_def)

lemma length_toppings_issues:
  "length (toppings_issues unicode (get_prop kvs ''toppings'')) = violations unicode kvs ''toppings''"
  by (cases "get_prop kvs ''toppings''")
    (simp_all add: toppings_issues_def violations_def length_element_issues)

lemma issue_fields_object:
  "map issue_field (object_issues unicode kvs) =
     concat (map (\<lambda>k. replicate (violations unicode kvs k) (Some k)) declared_fields)"
  by (simp add: object_issues_def issue_field_prefix declared_fields_def length_size_issues
      length_crust_issues length_isDeepDish_issues length_toppings_issues)

lemma show_nat_small:
  "show_nat 0 = ''0''" "show_nat (Suc 0) = ''1''" "show_nat 2 = ''2''" "show_nat 3 = ''3''"
  "show_nat 4 = ''4''" "show_nat 5 = ''5''" "show_nat 6 = ''6''" "show_nat 7 = ''7''"
  "show_nat 10 = ''10''"
  by code_simp+

text \<open>
  C4. The error string of a failed validation is the messages of the collected issues,
  one for each, joined with "; ". For an input object the issues are those of size, then
  crust, then isDeepDish, then toppings: each field has as many issues as it has
  violations, so no violation of one field hides a violation of another. For an input
  that is not an object there is one issue, about the input as a whole.
\<close>

theorem violations_collected_in_field_order:
  assumes "validatePizza unicode input = Inr (NotPizza e)"
  shows "\<exists>issues. safeParse (PizzaSchema unicode) input = Inr (Failure issues) \<and> issues \<noteq> [] \<and>
           e = join ''; '' (map error_message issues) \<and>
           (case input of
              JObj kvs \<Rightarrow>
                map issue_field issues =
                  concat (map (\<lambda>k. replicate (violations unicode kvs k) (Some k)) declared_fields)
            | _ \<Rightarrow> map issue_field issues = [None])"
proof (cases "\<exists>kvs. input = JObj kvs")
  case True
  then obtain kvs where kvs: "input = JObj kvs"
    by blast
  have bad: "object_issues unicode kvs \<noteq> []"
    using assms by (auto simp add: kvs validatePizza_object split: if_splits)
  have "e = join ''; '' (map error_message (object_issues unicode kvs))"
    using assms bad by (simp add: kvs validatePizza_object)
  then show ?thesis
    using bad by (simp add: kvs safeParse_object issue_fields_object)
next
  case False
  then have other: "\<forall>kvs. input \<noteq> JObj kvs"
    by blast
  have "e = join ''; '' (map error_message [invalid_type_issue ''object'' input])"
    using assms
    by (simp add: validatePizza_other [OF other] error_message_def invalid_type_issue_def)
  then show ?thesis
    using other
    by (cases input) (simp_all add: safeParse_other issue_field_def invalid_type_issue_def)
qed

theorem violations_collected_in_field_order_witness:
  "\<forall>unicode. \<exists>issues.
     safeParse (PizzaSchema unicode)
       (JObj [(''toppings'', JArr [JStr ''ham'', JNull]), (''crust'', JStr ''thin''),
              (''size'', JNum (Finite 0))]) =
       Inr (Failure issues) \<and> issues \<noteq> [] \<and>
     ''size: pizza size must be a positive number; crust: crust must be either '' @
     [CHR 0x22] @ ''stuffed'' @ [CHR 0x22] @ '' or '' @ [CHR 0x22] @ ''normal'' @ [CHR 0x22] @
     ''; toppings.1: Invalid input: expected string, received null'' =
       join ''; '' (map error_message issues) \<and>
     map issue_field issues = [Some ''size'', Some ''crust'', Some ''toppings'']"
proof
  fix unicode
  have "validatePizza unicode
          (JObj [(''toppings'', JArr [JStr ''ham'', JNull]), (''crust'', JStr ''thin''),
                 (''size'', JNum (Finite 0))]) =
          Inr (NotPizza (''size: pizza size must be a positive number; crust: crust must be either '' @
     [CHR 0x22] @ ''stuffed'' @ [CHR 0x22] @ '' or '' @ [CHR 0x22] @ ''normal'' @ [CHR 0x22] @
     ''; toppings.1: Invalid input: expected string, received null''))"
    by (simp add: validatePizza_object object_issues_def get_prop_def
        crust_issues_def isDeepDish_issues_def toppings_issues_def prefixIssues_def
        error_message_def invalid_type_issue_def show_nat_small crust_message_def)
  from violations_collected_in_field_order [OF this]
  show "\<exists>issues.
     safeParse (PizzaSchema unicode)
       (JObj [(''toppings'', JArr [JStr ''ham'', JNull]), (''crust'', JStr ''thin''),
              (''size'', JNum (Finite 0))]) =
       Inr (Failure issues) \<and> issues \<noteq> [] \<and>
     ''size: pizza size must be a positive number; crust: crust must be either '' @
     [CHR 0x22] @ ''stuffed'' @ [CHR 0x22] @ '' or '' @ [CHR 0x22] @ ''normal'' @ [CHR 0x22] @
     ''; toppings.1: Invalid input: expected string, received null'' =
       join ''; '' (map error_message issues) \<and>
     map issue_field issues = [Some ''size'', Some ''crust'', Some ''toppings'']"
    by (simp add: violations_def declared_fields_def get_prop_def crust_rule_def)
qed

lemma show_nat_nonempty: "show_nat n \<noteq> []"
  by (subst show_nat.simps) simp

lemma decimal_value_snoc:
  "decimal_value (ds @ [c]) = 10 * decimal_value ds + ((of_char c :: nat) - 48)"
  by (simp add: decimal_value_def)

lemma show_nat_digits: "list_all is_digit (show_nat n)"
proof (induction n rule: show_nat.induct)
  case (1 n)
  show ?case
  proof (cases "n < 10")
    case True
    then show ?thesis
      by (subst show_nat.simps) (simp add: is_digit_def)
  next
    case False
    have "n mod 10 < 10"
      by simp
    then have "is_digit (char_of (48 + n mod 10))"
      by (simp add: is_digit_def)
    then show ?thesis
      using False 1 by (subst show_nat.simps) simp
  qed
qed

lemma decimal_value_show_nat: "decimal_value (show_nat n) = n"
proof (induction n rule: show_nat.induct)
  case (1 n)
  show ?case
  proof (cases "n < 10")
    case True
    then show ?thesis
      by (subst show_nat.simps) (simp add: decimal_value_def)
  next
    case False
    have "n mod 10 < 10"
      by simp
    then have "(of_char (char_of (48 + n mod 10)) :: nat) - 48 = n mod 10"
      by simp
    then show ?thesis
      using False 1 by (subst show_nat.simps) (simp add: decimal_value_snoc)
  qed
qed

lemma show_nat_leading: "0 < n \<Longrightarrow> hd (show_nat n) \<noteq> CHR ''0''"
proof (induction n rule: show_nat.induct)
  case (1 n)
  show ?case
  proof (cases "n < 10")
    case True
    have "char_of (48 + n) \<noteq> CHR ''0''"
    proof
      assume "char_of (48 + n) = CHR ''0''"
      then have "(of_char (char_of (48 + n)) :: nat) = of_char (CHR ''0'')"
        by (rule arg_cong)
      then show False
        using True 1(2) by simp
    qed
    then show ?thesis
      using True by (subst show_nat.simps) simp
  next
    case False
    then have "0 < n div 10"
      by simp
    then have "hd (show_nat (n div 10)) \<noteq> CHR ''0''"
      using False 1(1) by simp
    then show ?thesis
      using False by (subst show_nat.simps) (simp add: show_nat_nonempty)
  qed
qed

lemma show_nat_decimal: "decimal_numeral (show_nat n) n"
proof (cases "n = 0")
  case True
  then show ?thesis
    by (simp add: decimal_numeral_def show_nat_small decimal_value_def is_digit_def)
next
  case False
  then show ?thesis
    by (simp add: decimal_numeral_def show_nat_nonempty show_nat_digits decimal_value_show_nat
        show_nat_leading)
qed

lemma element_issue_at:
  "j < length vs \<Longrightarrow> \<not> is_string (vs ! j) \<Longrightarrow>
   (invalid_type_issue ''string'' (vs ! j))\<lparr>path := [Idx (i + j)]\<rparr> \<in> set (element_issues i vs)"
proof (induction vs arbitrary: i j)
  case Nil
  then show ?case by simp
next
  case (Cons v vs)
  show ?case
  proof (cases j)
    case 0
    then show ?thesis using Cons.prems by simp
  next
    case (Suc j')
    then have "(invalid_type_issue ''string'' (vs ! j'))\<lparr>path := [Idx (Suc i + j')]\<rparr>
                 \<in> set (element_issues (Suc i) vs)"
      using Cons.prems by (intro Cons.IH) simp_all
    then show ?thesis using Suc by simp
  qed
qed

lemma element_issues_type:
  "i \<in> set (element_issues n vs) \<Longrightarrow> code i = invalid_type \<and> message i \<noteq> toppings_message"
  by (induction vs arbitrary: n)
    (auto simp add: invalid_type_issue_def toppings_message_text split: if_splits)

lemma size_issues_not_custom:
  "i \<in> set (size_issues v) \<Longrightarrow> code i \<noteq> custom \<and> message i \<noteq> toppings_message"
proof (cases v)
  case (JNum n)
  assume "i \<in> set (size_issues v)"
  then show ?thesis
    using JNum
    by (cases n) (auto simp add: invalid_type_issue_def toppings_message_text split: if_splits)
qed (auto simp add: invalid_type_issue_def toppings_message_text)

lemma crust_issues_not_custom:
  "i \<in> set (crust_issues v) \<Longrightarrow> code i \<noteq> custom \<and> message i \<noteq> toppings_message"
  by (auto simp add: crust_issues_def crust_message_def toppings_message_text split: if_splits)

lemma isDeepDish_issues_not_custom:
  "i \<in> set (isDeepDish_issues v) \<Longrightarrow> code i \<noteq> custom \<and> message i \<noteq> toppings_message"
  by (cases v) (auto simp add: isDeepDish_issues_def invalid_type_issue_def toppings_message_text)

lemma prefixIssues_member:
  "i \<in> set (prefixIssues seg iss) \<Longrightarrow> \<exists>i' \<in> set iss. code i = code i' \<and> message i = message i'"
  by (auto simp add: prefixIssues_def)

text \<open>
  C5. When the toppings field is present and is neither a list nor a list of strings only,
  the issues are type errors: for a list, each element that is not a string has an issue
  whose path is the field and the index of the element, written in the error string as
  \<open>toppings.\<close> and the decimal numeral of the index ("toppings.0: ..." for the first
  element); for a value that is not a list, one issue on the field. The content check is
  not run: no issue is the one of the forbidden toppings.
\<close>

theorem ill_typed_toppings_reported:
  assumes "get_prop kvs ''toppings'' = v" and "v \<noteq> JUndefined"
    and "\<forall>vs. v = JArr vs \<longrightarrow> \<not> list_all is_string vs"
  shows "\<exists>issues.
     safeParse (PizzaSchema unicode) (JObj kvs) = Inr (Failure issues) \<and>
     validatePizza unicode (JObj kvs) = Inr (NotPizza (join ''; '' (map error_message issues))) \<and>
     (\<forall>vs j. v = JArr vs \<and> j < length vs \<and> \<not> is_string (vs ! j) \<longrightarrow>
        (\<exists>i \<in> set issues. code i = invalid_type \<and> path i = [Key ''toppings'', Idx j] \<and>
           (\<exists>digits. decimal_numeral digits j \<and>
              error_message i =
                ''toppings.'' @ digits @ '': Invalid input: expected string, received '' @
                parsedType (vs ! j)))) \<and>
     ((\<forall>vs. v \<noteq> JArr vs) \<longrightarrow>
        (\<exists>i \<in> set issues. code i = invalid_type \<and> path i = [Key ''toppings''] \<and>
           error_message i =
             ''toppings: Invalid input: expected array, received '' @ parsedType v)) \<and>
     (\<forall>i \<in> set issues. code i \<noteq> custom \<and> message i \<noteq> toppings_message)"
proof -
  have top_type: "\<And>i. i \<in> set (toppings_issues unicode v) \<Longrightarrow>
      code i \<noteq> custom \<and> message i \<noteq> toppings_message"
    using assms(2,3)
    by (cases v)
      (auto simp add: toppings_issues_def invalid_type_issue_def toppings_message_text
        dest: element_issues_type)
  have top_nonempty: "toppings_issues unicode v \<noteq> []"
    using assms(2,3) by (cases v) (auto simp add: toppings_issues_def element_issues_empty)
  have bad: "object_issues unicode kvs \<noteq> []"
    using top_nonempty assms(1) by (simp add: object_issues_def prefixIssues_def)
  have elems: "\<And>vs j. v = JArr vs \<Longrightarrow> j < length vs \<Longrightarrow> \<not> is_string (vs ! j) \<Longrightarrow>
      \<exists>i \<in> set (object_issues unicode kvs). code i = invalid_type \<and>
         path i = [Key ''toppings'', Idx j] \<and>
         (\<exists>digits. decimal_numeral digits j \<and>
            error_message i =
              ''toppings.'' @ digits @ '': Invalid input: expected string, received '' @
              parsedType (vs ! j))"
  proof -
    fix vs j
    assume v: "v = JArr vs" and j: "j < length vs" "\<not> is_string (vs ! j)"
    have "\<not> list_all is_string vs"
      using assms(3) v by simp
    then have "toppings_issues unicode v = element_issues 0 vs"
      by (simp add: toppings_issues_def v)
    moreover have "(invalid_type_issue ''string'' (vs ! j))\<lparr>path := [Idx j]\<rparr>
        \<in> set (element_issues 0 vs)"
      using element_issue_at [OF j, of 0] by simp
    ultimately have "(invalid_type_issue ''string'' (vs ! j))\<lparr>path := [Key ''toppings'', Idx j]\<rparr>
        \<in> set (object_issues unicode kvs)"
      using assms(1) by (force simp add: object_issues_def prefixIssues_def)
    moreover have "error_message
        ((invalid_type_issue ''string'' (vs ! j))\<lparr>path := [Key ''toppings'', Idx j]\<rparr>) =
        ''toppings.'' @ show_nat j @ '': Invalid input: expected string, received '' @
        parsedType (vs ! j)"
      by (simp add: invalid_type_issue_def error_message_def)
    ultimately show "\<exists>i \<in> set (object_issues unicode kvs). code i = invalid_type \<and>
         path i = [Key ''toppings'', Idx j] \<and>
         (\<exists>digits. decimal_numeral digits j \<and>
            error_message i =
              ''toppings.'' @ digits @ '': Invalid input: expected string, received '' @
              parsedType (vs ! j))"
      using show_nat_decimal [of j]
      by (intro bexI [of _ "(invalid_type_issue ''string'' (vs ! j))\<lparr>path := [Key ''toppings'', Idx j]\<rparr>"])
        (auto simp add: invalid_type_issue_def)
  qed
  have whole: "\<forall>vs. v \<noteq> JArr vs \<Longrightarrow>
      \<exists>i \<in> set (object_issues unicode kvs). code i = invalid_type \<and>
         path i = [Key ''toppings''] \<and>
         error_message i = ''toppings: Invalid input: expected array, received '' @ parsedType v"
  proof -
    assume "\<forall>vs. v \<noteq> JArr vs"
    then have "toppings_issues unicode v = [invalid_type_issue ''array'' v]"
      using assms(2) by (cases v) (simp_all add: toppings_issues_def)
    then have "(invalid_type_issue ''array'' v)\<lparr>path := [Key ''toppings'']\<rparr>
        \<in> set (object_issues unicode kvs)"
      using assms(1) by (simp add: object_issues_def prefixIssues_def invalid_type_issue_def)
    then show ?thesis
      by (rule bexI [rotated]) (simp add: invalid_type_issue_def error_message_def)
  qed
  have none: "\<forall>i \<in> set (object_issues unicode kvs).
      code i \<noteq> custom \<and> message i \<noteq> toppings_message"
  proof
    fix i
    assume "i \<in> set (object_issues unicode kvs)"
    then consider
        "i \<in> set (prefixIssues (Key ''size'') (size_issues (get_prop kvs ''size'')))"
      | "i \<in> set (prefixIssues (Key ''crust'') (crust_issues (get_prop kvs ''crust'')))"
      | "i \<in> set (prefixIssues (Key ''isDeepDish'')
                    (isDeepDish_issues (get_prop kvs ''isDeepDish'')))"
      | "i \<in> set (prefixIssues (Key ''toppings'') (toppings_issues unicode v))"
      using assms(1) by (auto simp add: object_issues_def)
    then show "code i \<noteq> custom \<and> message i \<noteq> toppings_message"
    proof cases
      case 1
      then show ?thesis
        using size_issues_not_custom by (metis prefixIssues_member)
    next
      case 2
      then show ?thesis
        using crust_issues_not_custom by (metis prefixIssues_member)
    next
      case 3
      then show ?thesis
        using isDeepDish_issues_not_custom by (metis prefixIssues_member)
    next
      case 4
      then show ?thesis
        using top_type by (metis prefixIssues_member)
    qed
  qed
  show ?thesis
    using bad elems whole none
    by (intro exI [of _ "object_issues unicode kvs"])
      (simp add: safeParse_object validatePizza_object)
qed

theorem ill_typed_toppings_reported_witness:
  "\<forall>unicode. \<exists>issues.
     safeParse (PizzaSchema unicode)
       (JObj [(''size'', JNum (Finite 12)), (''crust'', JStr ''normal''),
              (''toppings'',
                 JArr [JNull, JBool True, JNum (Finite 1), JNum NaN, JNum PosInfinity, JArr [],
                       JObj [], JUndefined, JStr ''ham'', JStr ''spinach'', JNum NegInfinity])]) = Inr (Failure issues) \<and>
     map path issues =
       [[Key ''toppings'', Idx 0], [Key ''toppings'', Idx 1], [Key ''toppings'', Idx 2],
        [Key ''toppings'', Idx 3], [Key ''toppings'', Idx 4], [Key ''toppings'', Idx 5],
        [Key ''toppings'', Idx 6], [Key ''toppings'', Idx 7], [Key ''toppings'', Idx 10]] \<and>
     map error_message issues =
       [''toppings.0: Invalid input: expected string, received null'',
        ''toppings.1: Invalid input: expected string, received boolean'',
        ''toppings.2: Invalid input: expected string, received number'',
        ''toppings.3: Invalid input: expected string, received NaN'',
        ''toppings.4: Invalid input: expected string, received number'',
        ''toppings.5: Invalid input: expected string, received array'',
        ''toppings.6: Invalid input: expected string, received object'',
        ''toppings.7: Invalid input: expected string, received undefined'',
        ''toppings.10: Invalid input: expected string, received number''] \<and>
     list_all (\<lambda>i. message i \<noteq> toppings_message) issues"
proof
  fix unicode
  let ?ts = "[JNull, JBool True, JNum (Finite 1), JNum NaN, JNum PosInfinity, JArr [],
              JObj [], JUndefined, JStr ''ham'', JStr ''spinach'', JNum NegInfinity]"
  let ?kvs = "[(''size'', JNum (Finite 12)), (''crust'', JStr ''normal''), (''toppings'', JArr ?ts)]"
  let ?bad = "\<lambda>j v. (invalid_type_issue ''string'' v)\<lparr>path := [Key ''toppings'', Idx j]\<rparr>"
  have present: "get_prop ?kvs ''toppings'' = JArr ?ts"
    by (simp add: get_prop_def)
  have ill: "\<forall>vs. JArr ?ts = JArr vs \<longrightarrow> \<not> list_all is_string vs"
    by simp
  from ill_typed_toppings_reported [OF present _ ill, of unicode]
  obtain issues where parse: "safeParse (PizzaSchema unicode) (JObj ?kvs) = Inr (Failure issues)"
    and none: "\<forall>i \<in> set issues. code i \<noteq> custom \<and> message i \<noteq> toppings_message"
    by blast
  have "safeParse (PizzaSchema unicode) (JObj ?kvs) =
      Inr (Failure [?bad 0 JNull, ?bad 1 (JBool True), ?bad 2 (JNum (Finite 1)),
                    ?bad 3 (JNum NaN), ?bad 4 (JNum PosInfinity), ?bad 5 (JArr []),
                    ?bad 6 (JObj []), ?bad 7 JUndefined, ?bad 10 (JNum NegInfinity)])"
    by (simp add: safeParse_object object_issues_def get_prop_def crust_issues_def
        isDeepDish_issues_def toppings_issues_def prefixIssues_def invalid_type_issue_def
        eval_nat_numeral)
  then have issues: "issues =
      [?bad 0 JNull, ?bad 1 (JBool True), ?bad 2 (JNum (Finite 1)),
       ?bad 3 (JNum NaN), ?bad 4 (JNum PosInfinity), ?bad 5 (JArr []),
       ?bad 6 (JObj []), ?bad 7 JUndefined, ?bad 10 (JNum NegInfinity)]"
    using parse by simp
  have paths: "map path issues =
       [[Key ''toppings'', Idx 0], [Key ''toppings'', Idx 1], [Key ''toppings'', Idx 2],
        [Key ''toppings'', Idx 3], [Key ''toppings'', Idx 4], [Key ''toppings'', Idx 5],
        [Key ''toppings'', Idx 6], [Key ''toppings'', Idx 7], [Key ''toppings'', Idx 10]]"
    by (simp add: issues)
  have texts: "map error_message issues =
       [''toppings.0: Invalid input: expected string, received null'',
        ''toppings.1: Invalid input: expected string, received boolean'',
        ''toppings.2: Invalid input: expected string, received number'',
        ''toppings.3: Invalid input: expected string, received NaN'',
        ''toppings.4: Invalid input: expected string, received number'',
        ''toppings.5: Invalid input: expected string, received array'',
        ''toppings.6: Invalid input: expected string, received object'',
        ''toppings.7: Invalid input: expected string, received undefined'',
        ''toppings.10: Invalid input: expected string, received number'']"
    by (simp add: issues error_message_def invalid_type_issue_def show_nat_small)
  have clean: "list_all (\<lambda>i. message i \<noteq> toppings_message) issues"
    using none by (simp add: list_all_iff)
  show "\<exists>issues.
     safeParse (PizzaSchema unicode) (JObj ?kvs) = Inr (Failure issues) \<and>
     map path issues =
       [[Key ''toppings'', Idx 0], [Key ''toppings'', Idx 1], [Key ''toppings'', Idx 2],
        [Key ''toppings'', Idx 3], [Key ''toppings'', Idx 4], [Key ''toppings'', Idx 5],
        [Key ''toppings'', Idx 6], [Key ''toppings'', Idx 7], [Key ''toppings'', Idx 10]] \<and>
     map error_message issues =
       [''toppings.0: Invalid input: expected string, received null'',
        ''toppings.1: Invalid input: expected string, received boolean'',
        ''toppings.2: Invalid input: expected string, received number'',
        ''toppings.3: Invalid input: expected string, received NaN'',
        ''toppings.4: Invalid input: expected string, received number'',
        ''toppings.5: Invalid input: expected string, received array'',
        ''toppings.6: Invalid input: expected string, received object'',
        ''toppings.7: Invalid input: expected string, received undefined'',
        ''toppings.10: Invalid input: expected string, received number''] \<and>
     list_all (\<lambda>i. message i \<noteq> toppings_message) issues"
    using parse paths texts clean by (intro exI [of _ issues] conjI)
qed

text \<open>
  C6. The validator returns for every input: the callback of the toppings check is run
  only on \<open>undefined\<close> or on a list of strings, where it raises nothing, so the result is
  always one of the two cases of the result type. The validator reads and writes no state:
  its result is a function of its input.
\<close>

theorem validatePizza_total:
  "(\<exists>pizza. validatePizza unicode input = Inr (IsPizza pizza)) \<or>
   (\<exists>errors. validatePizza unicode input = Inr (NotPizza errors))"
proof (cases "\<exists>kvs. input = JObj kvs")
  case True
  then obtain kvs where "input = JObj kvs"
    by blast
  then show ?thesis
    by (cases "object_issues unicode kvs = []") (simp_all add: validatePizza_object)
next
  case False
  then show ?thesis
    by (simp add: validatePizza_other)
qed

lemma has_prop_parsed_props:
  "has_prop kvs ''size'' \<Longrightarrow> has_prop kvs ''crust'' \<Longrightarrow>
   has_prop (parsed_props kvs) ''toppings'' = has_prop kvs ''toppings'' \<and>
   has_prop (parsed_props kvs) ''size'' \<and> has_prop (parsed_props kvs) ''crust''"
  by (simp add: parsed_props_def own_prop_def has_prop_def)

lemma get_prop_parsed_props:
  "has_prop kvs ''size'' \<Longrightarrow> has_prop kvs ''crust'' \<Longrightarrow>
   get_prop (parsed_props kvs) ''size'' = get_prop kvs ''size'' \<and>
   get_prop (parsed_props kvs) ''crust'' = get_prop kvs ''crust'' \<and>
   get_prop (parsed_props kvs) ''isDeepDish'' =
     (if get_prop kvs ''isDeepDish'' = JUndefined then JBool False
      else get_prop kvs ''isDeepDish'') \<and>
   get_prop (parsed_props kvs) ''toppings'' = get_prop kvs ''toppings''"
  by (auto simp add: parsed_props_def own_prop_def has_prop_def get_prop_def
      split: option.splits)

lemma size_rule_present: "size_rule (get_prop kvs k) \<Longrightarrow> has_prop kvs k"
  by (auto simp add: get_prop_def has_prop_def split: option.splits)

lemma crust_rule_present: "crust_rule (get_prop kvs k) \<Longrightarrow> has_prop kvs k"
  by (auto simp add: get_prop_def has_prop_def crust_rule_def split: option.splits)

lemma parsed_props_idem:
  assumes "object_issues unicode kvs = []"
  shows "object_issues unicode (parsed_props kvs) = [] \<and>
         parsed_props (parsed_props kvs) = parsed_props kvs"
proof -
  have rules: "size_rule (get_prop kvs ''size'')" "crust_rule (get_prop kvs ''crust'')"
    "isDeepDish_rule (get_prop kvs ''isDeepDish'')"
    "toppings_rule unicode (get_prop kvs ''toppings'')"
    using assms by (simp_all add: object_issues_empty)
  have present: "has_prop kvs ''size''" "has_prop kvs ''crust''"
    using rules by (simp_all add: size_rule_present crust_rule_present)
  note gets = get_prop_parsed_props [OF present]
  note has = has_prop_parsed_props [OF present]
  have deep: "isDeepDish_rule (if get_prop kvs ''isDeepDish'' = JUndefined then JBool False
                               else get_prop kvs ''isDeepDish'')"
    using rules(3) by simp
  have "object_issues unicode (parsed_props kvs) = []"
    using rules deep by (simp add: object_issues_empty gets)
  moreover have "parsed_props (parsed_props kvs) = parsed_props kvs"
    by (simp add: parsed_props_def [of "parsed_props kvs"] own_prop_def gets has)
      (simp add: parsed_props_def own_prop_def present)
  ultimately show ?thesis
    by simp
qed

text \<open>
  C7. Idempotence: when the validator accepts an input and returns the pizza \<open>p\<close>,
  it accepts \<open>p\<close> and returns \<open>p\<close> again.
\<close>

theorem validatePizza_idempotent:
  assumes "validatePizza unicode input = Inr (IsPizza p)"
  shows "validatePizza unicode p = Inr (IsPizza p)"
proof (cases "\<exists>kvs. input = JObj kvs")
  case True
  then obtain kvs where kvs: "input = JObj kvs"
    by blast
  have ok: "object_issues unicode kvs = []" and p: "p = JObj (parsed_props kvs)"
    using assms by (auto simp add: kvs validatePizza_object split: if_splits)
  show ?thesis
    using parsed_props_idem [OF ok] by (simp add: p validatePizza_object)
next
  case False
  then show ?thesis
    using assms by (simp add: validatePizza_other)
qed

theorem validatePizza_idempotent_witness:
  "\<forall>unicode.
     validatePizza unicode (JObj [(''size'', JNum (Finite 12)), (''crust'', JStr ''normal''),
                                  (''isDeepDish'', JBool False)]) =
     Inr (IsPizza (JObj [(''size'', JNum (Finite 12)), (''crust'', JStr ''normal''),
                         (''isDeepDish'', JBool False)]))"
proof
  fix unicode
  have "validatePizza unicode
          (JObj [(''crust'', JStr ''normal''), (''extra'', JNull), (''size'', JNum (Finite 12))]) =
        Inr (IsPizza (JObj [(''size'', JNum (Finite 12)), (''crust'', JStr ''normal''),
                            (''isDeepDish'', JBool False)]))"
    by (simp add: validatePizza_object object_issues_empty parsed_props_def own_prop_def
        get_prop_def has_prop_def crust_rule_def)
  then show "validatePizza unicode
       (JObj [(''size'', JNum (Finite 12)), (''crust'', JStr ''normal''),
              (''isDeepDish'', JBool False)]) =
     Inr (IsPizza (JObj [(''size'', JNum (Finite 12)), (''crust'', JStr ''normal''),
                         (''isDeepDish'', JBool False)]))"
    by (rule validatePizza_idempotent)
qed

lemma map_of_filter_declared:
  "k \<in> set declared_fields \<Longrightarrow>
   map_of (filter (\<lambda>(k', v). k' \<in> set declared_fields) kvs) k = map_of kvs k"
  by (induction kvs) auto

lemma get_prop_filter_declared:
  "k \<in> set declared_fields \<Longrightarrow>
   get_prop (filter (\<lambda>(k', v). k' \<in> set declared_fields) kvs) k = get_prop kvs k"
  by (simp add: get_prop_def map_of_filter_declared)

lemma has_prop_filter_declared:
  "k \<in> set declared_fields \<Longrightarrow>
   has_prop (filter (\<lambda>(k', v). k' \<in> set declared_fields) kvs) k = has_prop kvs k"
  by (simp add: has_prop_def map_of_filter_declared)

lemma declared_members:
  "''size'' \<in> set declared_fields" "''crust'' \<in> set declared_fields"
  "''isDeepDish'' \<in> set declared_fields" "''toppings'' \<in> set declared_fields"
  by (simp_all add: declared_fields_def)

text \<open>
  C10. Keys other than size, crust, isDeepDish and toppings are never read: the validator
  gives the same result as on the input without them, so they cause no error, and on
  success the keys of the returned pizza are size, crust, isDeepDish, and toppings when
  the input has it.
\<close>

theorem unknown_keys_stripped:
  "validatePizza unicode (JObj kvs) =
     validatePizza unicode (JObj (filter (\<lambda>(k, v). k \<in> set declared_fields) kvs)) \<and>
   (\<forall>p. validatePizza unicode (JObj kvs) = Inr (IsPizza p) \<longrightarrow>
      (\<exists>out. p = JObj out \<and>
         map fst out =
           [''size'', ''crust'', ''isDeepDish''] @
           (if has_prop kvs ''toppings'' then [''toppings''] else [])))"
proof -
  let ?kvs' = "filter (\<lambda>(k, v). k \<in> set declared_fields) kvs"
  have iss: "object_issues unicode ?kvs' = object_issues unicode kvs"
    by (simp add: object_issues_def get_prop_filter_declared declared_members)
  have props: "parsed_props ?kvs' = parsed_props kvs"
    by (simp add: parsed_props_def own_prop_def get_prop_filter_declared
        has_prop_filter_declared declared_members)
  have same: "validatePizza unicode (JObj kvs) = validatePizza unicode (JObj ?kvs')"
    by (simp add: validatePizza_object iss props)
  have keys: "\<exists>out. p = JObj out \<and>
         map fst out =
           [''size'', ''crust'', ''isDeepDish''] @
           (if has_prop kvs ''toppings'' then [''toppings''] else [])"
    if "validatePizza unicode (JObj kvs) = Inr (IsPizza p)" for p
  proof -
    have ok: "object_issues unicode kvs = []" and p: "p = JObj (parsed_props kvs)"
      using that by (auto simp add: validatePizza_object split: if_splits)
    have "has_prop kvs ''size''" "has_prop kvs ''crust''"
      using ok by (simp_all add: object_issues_empty size_rule_present crust_rule_present)
    then show ?thesis
      by (simp add: p parsed_props_def own_prop_def)
  qed
  show ?thesis
    using same keys by blast
qed

theorem unknown_keys_stripped_witness:
  "\<forall>unicode.
     validatePizza unicode
       (JObj [(''size'', JNum (Finite 12)), (''price'', JNum (Finite 9)),
              (''crust'', JStr ''normal'')]) =
     validatePizza unicode (JObj [(''size'', JNum (Finite 12)), (''crust'', JStr ''normal'')]) \<and>
     validatePizza unicode
       (JObj [(''size'', JNum (Finite 12)), (''price'', JNum (Finite 9)),
              (''crust'', JStr ''normal'')]) =
     Inr (IsPizza (JObj [(''size'', JNum (Finite 12)), (''crust'', JStr ''normal''),
                         (''isDeepDish'', JBool False)]))"
proof
  fix unicode
  let ?kvs = "[(''size'', JNum (Finite 12)), (''price'', JNum (Finite 9)),
               (''crust'', JStr ''normal'')]"
  have "validatePizza unicode (JObj ?kvs) =
     validatePizza unicode (JObj (filter (\<lambda>(k, v). k \<in> set declared_fields) ?kvs))"
    using unknown_keys_stripped [of unicode ?kvs] by blast
  then have "validatePizza unicode (JObj ?kvs) =
     validatePizza unicode (JObj [(''size'', JNum (Finite 12)), (''crust'', JStr ''normal'')])"
    by (simp add: declared_fields_def)
  moreover have "validatePizza unicode
       (JObj [(''size'', JNum (Finite 12)), (''crust'', JStr ''normal'')]) =
     Inr (IsPizza (JObj [(''size'', JNum (Finite 12)), (''crust'', JStr ''normal''),
                         (''isDeepDish'', JBool False)]))"
    by (simp add: validatePizza_object object_issues_empty parsed_props_def own_prop_def
        get_prop_def has_prop_def crust_rule_def)
  ultimately show "validatePizza unicode (JObj ?kvs) =
     validatePizza unicode (JObj [(''size'', JNum (Finite 12)), (''crust'', JStr ''normal'')]) \<and>
     validatePizza unicode (JObj ?kvs) =
     Inr (IsPizza (JObj [(''size'', JNum (Finite 12)), (''crust'', JStr ''normal''),
                         (''isDeepDish'', JBool False)]))"
    by simp
qed

section \<open>The command line tool\<close>

lemma hex_digit_high: "n < 32 \<Longrightarrow> [hex_digit (n div 16)] = (if n < 16 then ''0'' else ''1'')"
proof (cases "n < 16")
  case True
  then show ?thesis by (simp add: hex_digit_def)
next
  case False
  assume "n < 32"
  then have "n div 16 = 1"
    using False by simp
  then show ?thesis
    using False by (simp add: hex_digit_def)
qed

lemma quote_char_json: "quote_char c = json_char c"
proof (cases "(of_char c :: nat) < 32")
  case True
  have "[hex_digit ((of_char c :: nat) div 16)] = (if (of_char c :: nat) < 16 then ''0'' else ''1'')"
    using True by (rule hex_digit_high)
  then have high: "hex_digit ((of_char c :: nat) div 16) =
      (if (of_char c :: nat) < 16 then CHR ''0'' else CHR ''1'')"
    by (simp split: if_splits)
  show ?thesis
    using True
    by (auto simp add: quote_char_def json_char_def json_escapes_def high hex_digit_def)
next
  case False
  then show ?thesis
    by (auto simp add: quote_char_def json_char_def json_escapes_def)
qed

lemma QuoteJSONString_json: "QuoteJSONString = json_string"
proof (rule ext)
  fix s
  have same: "quote_char = json_char"
    by (rule ext) (rule quote_char_json)
  show "QuoteJSONString s = json_string s"
    unfolding QuoteJSONString_def json_string_def same ..
qed

lemma json_string_names:
  "json_string ''size'' = [CHR 0x22] @ ''size'' @ [CHR 0x22]"
  "json_string ''crust'' = [CHR 0x22] @ ''crust'' @ [CHR 0x22]"
  "json_string ''isDeepDish'' = [CHR 0x22] @ ''isDeepDish'' @ [CHR 0x22]"
  "json_string ''toppings'' = [CHR 0x22] @ ''toppings'' @ [CHR 0x22]"
  by (simp_all add: json_string_def json_char_def json_escapes_def)

lemma join_Cons: "join sep (x # xs) = x @ concat (map (\<lambda>y. sep @ y) xs)"
  by (induction xs arbitrary: x) simp_all

lemma serialize_toppings:
  "serialize num ''  '' (JArr (map JStr ts)) = Some (toppings_text ts)"
proof (cases ts)
  case Nil
  then show ?thesis by simp
next
  case (Cons t rest)
  then show ?thesis
    by (simp add: join_Cons comp_def QuoteJSONString_json del: join.simps)
qed

lemma stringify_pizza_record:
  "JSON_stringify num (pizza_record s c b toppings) = Some (pizza_text (num s) c b toppings)"
proof (cases toppings)
  case None
  then show ?thesis
    by (simp add: JSON_stringify_def pizza_record_def pizza_text_def QuoteJSONString_json
        json_string_names)
next
  case (Some ts)
  have "serialize num ''  '' (JArr (map JStr ts)) = Some (toppings_text ts)"
    by (rule serialize_toppings)
  then show ?thesis
    using Some
    by (simp add: JSON_stringify_def pizza_record_def pizza_text_def QuoteJSONString_json
        json_string_names del: serialize.simps(7))
qed

lemma stringify_undefined_toppings:
  "JSON_stringify num (JObj (props @ [(''toppings'', JUndefined)])) =
   JSON_stringify num (JObj props)"
  by (simp add: JSON_stringify_def)

lemma strings_are_mapped: "list_all is_string vs \<Longrightarrow> \<exists>ts. vs = map JStr ts"
proof (induction vs)
  case Nil
  show ?case by simp
next
  case (Cons v vs)
  then obtain ts where "vs = map JStr ts"
    by auto
  moreover obtain t where "v = JStr t"
    using Cons.prems by (cases v) simp_all
  ultimately have "v # vs = map JStr (t # ts)"
    by simp
  then show ?case
    by (intro exI [of _ "t # ts"])
qed

lemma valid_pizza_shape:
  assumes "object_issues unicode kvs = []"
  shows "\<exists>s c b toppings.
           (JObj (parsed_props kvs) = pizza_record s c b toppings \<or>
            toppings = None \<and>
            JObj (parsed_props kvs) =
              JObj [(''size'', JNum (Finite s)), (''crust'', JStr c), (''isDeepDish'', JBool b),
                    (''toppings'', JUndefined)]) \<and>
           (get_prop kvs ''toppings'' = JUndefined \<longrightarrow> toppings = None)"
proof -
  have rules: "size_rule (get_prop kvs ''size'')" "crust_rule (get_prop kvs ''crust'')"
    "isDeepDish_rule (get_prop kvs ''isDeepDish'')"
    "toppings_rule unicode (get_prop kvs ''toppings'')"
    using assms by (simp_all add: object_issues_empty)
  have present: "has_prop kvs ''size''" "has_prop kvs ''crust''"
    using rules by (simp_all add: size_rule_present crust_rule_present)
  obtain s where s: "get_prop kvs ''size'' = JNum (Finite s)"
    using rules(1) by (cases "get_prop kvs ''size''" rule: size_rule.cases) simp_all
  obtain c where c: "get_prop kvs ''crust'' = JStr c"
    using rules(2) by (auto simp add: crust_rule_def)
  obtain b where b: "(if get_prop kvs ''isDeepDish'' = JUndefined then JBool False
                      else get_prop kvs ''isDeepDish'') = JBool b"
    using rules(3) by (cases "get_prop kvs ''isDeepDish''") auto
  have first: "parsed_props kvs =
      [(''size'', JNum (Finite s)), (''crust'', JStr c), (''isDeepDish'', JBool b)] @
      own_prop kvs ''toppings''"
    using present s c b by (simp add: parsed_props_def own_prop_def)
  show ?thesis
  proof (cases "get_prop kvs ''toppings''")
    case JUndefined
    show ?thesis
    proof (cases "has_prop kvs ''toppings''")
      case True
      then have "JObj (parsed_props kvs) =
          JObj [(''size'', JNum (Finite s)), (''crust'', JStr c), (''isDeepDish'', JBool b),
                (''toppings'', JUndefined)]"
        using JUndefined by (simp add: first own_prop_def)
      then show ?thesis
        by (intro exI [of _ s] exI [of _ c] exI [of _ b] exI [of _ None]) simp
    next
      case False
      then have "JObj (parsed_props kvs) = pizza_record s c b None"
        by (simp add: first own_prop_def pizza_record_def)
      then show ?thesis
        by (intro exI [of _ s] exI [of _ c] exI [of _ b] exI [of _ None]) simp
    qed
  next
    case (JArr vs)
    then have "list_all is_string vs"
      using rules(4) by simp
    then obtain ts where ts: "vs = map JStr ts"
      using strings_are_mapped by blast
    have "has_prop kvs ''toppings''"
      using JArr by (auto simp add: has_prop_def get_prop_def split: option.splits)
    then have "JObj (parsed_props kvs) = pizza_record s c b (Some ts)"
      using JArr ts by (simp add: first own_prop_def pizza_record_def)
    then show ?thesis
      using JArr by (intro exI [of _ s] exI [of _ c] exI [of _ b] exI [of _ "Some ts"]) simp
  qed (use rules(4) in simp_all)
qed

text \<open>
  C8. For a file that is read and whose content parses as JSON: when the value validates,
  the tool prints the line of the check mark and " Valid pizza!" and then the record of
  the pizza as JSON with an indent of two spaces on the standard output, nothing on the
  standard error, and exits with code 0; when the input has no toppings, the record has
  none and the text has no toppings key. When the value fails validation, the tool prints
  the line of the ballot cross and " Invalid pizza:" and then the error string on the
  standard error, nothing on the standard output, and exits with code 1.
\<close>

theorem cli_reports_validation:
  assumes "\<not> values_help args" and "positionals args = filePath # others"
    and "readFileSync filePath = Content fileContent"
    and "JSON_parse fileContent = Inr jsonData"
  shows "(\<forall>pizza. validatePizza unicode jsonData = Inr (IsPizza pizza) \<longrightarrow>
            (\<exists>s c b toppings.
               (pizza = pizza_record s c b toppings \<or>
                toppings = None \<and>
                pizza = JObj [(''size'', JNum (Finite s)), (''crust'', JStr c),
                              (''isDeepDish'', JBool b), (''toppings'', JUndefined)]) \<and>
               (\<forall>kvs. jsonData = JObj kvs \<and> get_prop kvs ''toppings'' = JUndefined \<longrightarrow>
                  toppings = None) \<and>
               main unicode num readFileSync JSON_parse args =
                 \<lparr>stdout = [[CHR 0xE2, CHR 0x9C, CHR 0x93] @ '' Valid pizza!'',
                            pizza_text (num s) c b toppings],
                  stderr = [], exit_code = 0\<rparr>)) \<and>
         (\<forall>errors. validatePizza unicode jsonData = Inr (NotPizza errors) \<longrightarrow>
            main unicode num readFileSync JSON_parse args =
              \<lparr>stdout = [],
               stderr = [[CHR 0xE2, CHR 0x9C, CHR 0x97] @ '' Invalid pizza:'', errors],
               exit_code = 1\<rparr>)"
proof -
  have valid: "main unicode num readFileSync JSON_parse args =
      \<lparr>stdout = [[CHR 0xE2, CHR 0x9C, CHR 0x93] @ '' Valid pizza!'',
                 printed (JSON_stringify num pizza)],
       stderr = [], exit_code = 0\<rparr>"
    if "validatePizza unicode jsonData = Inr (IsPizza pizza)" for pizza
    using assms that by (simp add: main_def)
  have invalid: "main unicode num readFileSync JSON_parse args =
      \<lparr>stdout = [], stderr = [[CHR 0xE2, CHR 0x9C, CHR 0x97] @ '' Invalid pizza:'', errors],
       exit_code = 1\<rparr>"
    if "validatePizza unicode jsonData = Inr (NotPizza errors)" for errors
    using assms that by (simp add: main_def)
  have shown: "\<exists>s c b toppings.
       (pizza = pizza_record s c b toppings \<or>
        toppings = None \<and>
        pizza = JObj [(''size'', JNum (Finite s)), (''crust'', JStr c),
                      (''isDeepDish'', JBool b), (''toppings'', JUndefined)]) \<and>
       (\<forall>kvs. jsonData = JObj kvs \<and> get_prop kvs ''toppings'' = JUndefined \<longrightarrow>
          toppings = None) \<and>
       main unicode num readFileSync JSON_parse args =
         \<lparr>stdout = [[CHR 0xE2, CHR 0x9C, CHR 0x93] @ '' Valid pizza!'',
                    pizza_text (num s) c b toppings],
          stderr = [], exit_code = 0\<rparr>"
    if ok: "validatePizza unicode jsonData = Inr (IsPizza pizza)" for pizza
  proof -
    obtain kvs where kvs: "jsonData = JObj kvs"
      using ok by (cases "\<exists>kvs. jsonData = JObj kvs") (auto simp add: validatePizza_other)
    have none: "object_issues unicode kvs = []" and pizza: "pizza = JObj (parsed_props kvs)"
      using ok by (auto simp add: kvs validatePizza_object split: if_splits)
    from valid_pizza_shape [OF none]
    obtain s c b toppings where shape:
        "pizza = pizza_record s c b toppings \<or>
         toppings = None \<and>
         pizza = JObj [(''size'', JNum (Finite s)), (''crust'', JStr c),
                       (''isDeepDish'', JBool b), (''toppings'', JUndefined)]"
      and absent: "get_prop kvs ''toppings'' = JUndefined \<longrightarrow> toppings = None"
      unfolding pizza by blast
    have "JSON_stringify num pizza = Some (pizza_text (num s) c b toppings)"
    proof (cases "pizza = pizza_record s c b toppings")
      case True
      then show ?thesis
        by (simp only: stringify_pizza_record)
    next
      case False
      then have und: "toppings = None"
        and "pizza = JObj ([(''size'', JNum (Finite s)), (''crust'', JStr c),
                            (''isDeepDish'', JBool b)] @ [(''toppings'', JUndefined)])"
        using shape by simp_all
      then have "JSON_stringify num pizza = JSON_stringify num (pizza_record s c b None)"
        by (simp only: stringify_undefined_toppings) (simp add: pizza_record_def)
      then show ?thesis
        by (simp only: und stringify_pizza_record)
    qed
    then have "main unicode num readFileSync JSON_parse args =
         \<lparr>stdout = [[CHR 0xE2, CHR 0x9C, CHR 0x93] @ '' Valid pizza!'',
                    pizza_text (num s) c b toppings],
          stderr = [], exit_code = 0\<rparr>"
      by (simp add: valid [OF ok] printed_def)
    then show ?thesis
      using shape absent kvs by blast
  qed
  show ?thesis
    using invalid shown by blast
qed

theorem cli_reports_validation_witness:
  "(\<forall>unicode.
     main unicode (\<lambda>r. ''14'') (\<lambda>p. Content ''pizza'')
       (\<lambda>t. Inr (JObj [(''toppings'', JArr [JStr ''ham'', JStr (''a'' @ [CHR 0x22, CHR 0x09] @ ''b'')]),
                       (''size'', JNum (Finite 14)), (''crust'', JStr ''stuffed'')]))
       \<lparr>values_help = False, positionals = [''pizza.json'']\<rparr> =
     \<lparr>stdout =
        [[CHR 0xE2, CHR 0x9C, CHR 0x93] @ '' Valid pizza!'',
         ''{'' @ [CHR 0x0A] @
         ''  '' @ [CHR 0x22] @ ''size'' @ [CHR 0x22] @ '': 14,'' @ [CHR 0x0A] @
         ''  '' @ [CHR 0x22] @ ''crust'' @ [CHR 0x22] @ '': '' @
           [CHR 0x22] @ ''stuffed'' @ [CHR 0x22] @ '','' @ [CHR 0x0A] @
         ''  '' @ [CHR 0x22] @ ''isDeepDish'' @ [CHR 0x22] @ '': false,'' @ [CHR 0x0A] @
         ''  '' @ [CHR 0x22] @ ''toppings'' @ [CHR 0x22] @ '': ['' @ [CHR 0x0A] @
         ''    '' @ [CHR 0x22] @ ''ham'' @ [CHR 0x22] @ '','' @ [CHR 0x0A] @
         ''    '' @ [CHR 0x22] @ ''a'' @ [CHR 0x5C, CHR 0x22, CHR 0x5C] @ ''tb'' @ [CHR 0x22] @
           [CHR 0x0A] @
         ''  ]'' @ [CHR 0x0A] @
         ''}''],
      stderr = [], exit_code = 0\<rparr>) \<and>
   (\<forall>unicode.
     main unicode (\<lambda>r. ''12'') (\<lambda>p. Content ''pizza'')
       (\<lambda>t. Inr (JObj [(''size'', JNum (Finite 12)), (''crust'', JStr ''normal''),
                       (''toppings'', JArr [JStr ''spinach'', JStr ''mushroom''])]))
       \<lparr>values_help = False, positionals = [''pizza.json'']\<rparr> =
     \<lparr>stdout = [],
      stderr =
        [[CHR 0xE2, CHR 0x9C, CHR 0x97] @ '' Invalid pizza:'',
         ''toppings: the following toppings are invalid: spinach, mushroom, chicken, turkey.''],
      exit_code = 1\<rparr>)"
proof (intro conjI allI)
  fix unicode
  let ?data = "JObj [(''toppings'', JArr [JStr ''ham'', JStr (''a'' @ [CHR 0x22, CHR 0x09] @ ''b'')]),
                     (''size'', JNum (Finite 14)), (''crust'', JStr ''stuffed'')]"
  let ?pizza = "JObj [(''size'', JNum (Finite 14)), (''crust'', JStr ''stuffed''),
                      (''isDeepDish'', JBool False),
                      (''toppings'', JArr [JStr ''ham'', JStr (''a'' @ [CHR 0x22, CHR 0x09] @ ''b'')])]"
  have low: "toLowerCase unicode ''ham'' = ''ham''"
    "toLowerCase unicode (''a'' @ [CHR 0x22, CHR 0x09] @ ''b'') = ''a'' @ [CHR 0x22, CHR 0x09] @ ''b''"
    by (simp_all add: toLowerCase_def is_ascii_def lower_char_def)
  have ok: "validatePizza unicode ?data = Inr (IsPizza ?pizza)"
    using low
    by (simp add: validatePizza_object object_issues_empty parsed_props_def own_prop_def
        get_prop_def has_prop_def crust_rule_def INVALID_TOPPINGS_def)
  from cli_reports_validation
      [of "\<lparr>values_help = False, positionals = [''pizza.json'']\<rparr>" "''pizza.json''" "[]"
          "\<lambda>p. Content ''pizza''" "''pizza''" "\<lambda>t. Inr ?data" ?data unicode "\<lambda>r. ''14''"]
  obtain s c b toppings where
      shape: "?pizza = pizza_record s c b toppings \<or>
         toppings = None \<and>
         ?pizza = JObj [(''size'', JNum (Finite s)), (''crust'', JStr c),
                        (''isDeepDish'', JBool b), (''toppings'', JUndefined)]"
    and out: "main unicode (\<lambda>r. ''14'') (\<lambda>p. Content ''pizza'') (\<lambda>t. Inr ?data)
         \<lparr>values_help = False, positionals = [''pizza.json'']\<rparr> =
       \<lparr>stdout = [[CHR 0xE2, CHR 0x9C, CHR 0x93] @ '' Valid pizza!'',
                  pizza_text ''14'' c b toppings],
        stderr = [], exit_code = 0\<rparr>"
    using ok by auto
  have rec: "?pizza = pizza_record s c b toppings"
    using shape by auto
  then obtain ts where ts: "toppings = Some ts"
    by (cases toppings) (simp_all add: pizza_record_def)
  have fields: "c = ''stuffed''" "b = False"
    "map JStr ts = [JStr ''ham'', JStr (''a'' @ [CHR 0x22, CHR 0x09] @ ''b'')]"
    using rec ts by (simp_all add: pizza_record_def)
  then have "ts = [''ham'', ''a'' @ [CHR 0x22, CHR 0x09] @ ''b'']"
    by (auto simp add: map_eq_Cons_conv)
  then show "main unicode (\<lambda>r. ''14'') (\<lambda>p. Content ''pizza'') (\<lambda>t. Inr ?data)
       \<lparr>values_help = False, positionals = [''pizza.json'']\<rparr> =
     \<lparr>stdout =
        [[CHR 0xE2, CHR 0x9C, CHR 0x93] @ '' Valid pizza!'',
         ''{'' @ [CHR 0x0A] @
         ''  '' @ [CHR 0x22] @ ''size'' @ [CHR 0x22] @ '': 14,'' @ [CHR 0x0A] @
         ''  '' @ [CHR 0x22] @ ''crust'' @ [CHR 0x22] @ '': '' @
           [CHR 0x22] @ ''stuffed'' @ [CHR 0x22] @ '','' @ [CHR 0x0A] @
         ''  '' @ [CHR 0x22] @ ''isDeepDish'' @ [CHR 0x22] @ '': false,'' @ [CHR 0x0A] @
         ''  '' @ [CHR 0x22] @ ''toppings'' @ [CHR 0x22] @ '': ['' @ [CHR 0x0A] @
         ''    '' @ [CHR 0x22] @ ''ham'' @ [CHR 0x22] @ '','' @ [CHR 0x0A] @
         ''    '' @ [CHR 0x22] @ ''a'' @ [CHR 0x5C, CHR 0x22, CHR 0x5C] @ ''tb'' @ [CHR 0x22] @
           [CHR 0x0A] @
         ''  ]'' @ [CHR 0x0A] @
         ''}''],
      stderr = [], exit_code = 0\<rparr>"
    using out fields(1,2) ts
    by (simp add: pizza_text_def json_string_def json_char_def json_escapes_def)
next
  fix unicode
  let ?data = "JObj [(''size'', JNum (Finite 12)), (''crust'', JStr ''normal''),
                     (''toppings'', JArr [JStr ''spinach'', JStr ''mushroom''])]"
  have low: "toLowerCase unicode ''spinach'' = ''spinach''"
    by (simp add: toLowerCase_def is_ascii_def lower_char_def)
  have bad: "validatePizza unicode ?data =
      Inr (NotPizza
        ''toppings: the following toppings are invalid: spinach, mushroom, chicken, turkey.'')"
    using low
    by (simp add: validatePizza_object object_issues_def get_prop_def crust_issues_def
        isDeepDish_issues_def toppings_issues_def prefixIssues_def error_message_def
        toppings_message_text INVALID_TOPPINGS_def)
  show "main unicode (\<lambda>r. ''12'') (\<lambda>p. Content ''pizza'')
       (\<lambda>t. Inr (JObj [(''size'', JNum (Finite 12)), (''crust'', JStr ''normal''),
                       (''toppings'', JArr [JStr ''spinach'', JStr ''mushroom''])]))
       \<lparr>values_help = False, positionals = [''pizza.json'']\<rparr> =
     \<lparr>stdout = [],
      stderr =
        [[CHR 0xE2, CHR 0x9C, CHR 0x97] @ '' Invalid pizza:'',
         ''toppings: the following toppings are invalid: spinach, mushroom, chicken, turkey.''],
      exit_code = 1\<rparr>"
    using bad cli_reports_validation
      [of "\<lparr>values_help = False, positionals = [''pizza.json'']\<rparr>" "''pizza.json''" "[]"
          "\<lambda>p. Content ''pizza''" "''pizza''" "\<lambda>t. Inr ?data" ?data unicode "\<lambda>r. ''12''"]
    by simp
qed

text \<open>
  C9. When the file cannot be read because it does not exist, the tool prints exactly
  \<open>Error: File "<path>" not found.\<close> on the standard error and exits with code 1. When
  the content is not JSON, it prints \<open>Error: Invalid JSON in file "<path>".\<close> and then the
  message of the parser, and exits with code 1. Any other error of the read prints
  \<open>Error reading file "<path>":\<close> and the message, with code 1. The exit code is 0 only
  when the help was shown or the file held a valid pizza, and it is 1 otherwise.
\<close>

theorem cli_operational_errors:
  "(\<not> values_help args \<and> positionals args = filePath # others \<longrightarrow>
      (\<forall>msg. readFileSync filePath = ErrnoError ''ENOENT'' msg \<longrightarrow>
         main unicode num readFileSync JSON_parse args =
           \<lparr>stdout = [],
            stderr = [''Error: File '' @ [CHR 0x22] @ filePath @ [CHR 0x22] @ '' not found.''],
            exit_code = 1\<rparr>) \<and>
      (\<forall>fileContent msg.
         readFileSync filePath = Content fileContent \<and> JSON_parse fileContent = Inl msg \<longrightarrow>
         main unicode num readFileSync JSON_parse args =
           \<lparr>stdout = [],
            stderr = [''Error: Invalid JSON in file '' @ [CHR 0x22] @ filePath @ [CHR 0x22] @ ''.'',
                      msg],
            exit_code = 1\<rparr>) \<and>
      (\<forall>errcode msg. readFileSync filePath = ErrnoError errcode msg \<and> errcode \<noteq> ''ENOENT'' \<longrightarrow>
         main unicode num readFileSync JSON_parse args =
           \<lparr>stdout = [],
            stderr = [''Error reading file '' @ [CHR 0x22] @ filePath @ [CHR 0x22] @ '':'', msg],
            exit_code = 1\<rparr>)) \<and>
   exit_code (main unicode num readFileSync JSON_parse args) =
     (if values_help args \<or> positionals args = [] \<or>
         (\<exists>fileContent jsonData pizza.
            readFileSync (positionals args ! 0) = Content fileContent \<and>
            JSON_parse fileContent = Inr jsonData \<and>
            validatePizza unicode jsonData = Inr (IsPizza pizza))
      then 0 else 1)"
proof -
  have code: "exit_code (main unicode num readFileSync JSON_parse args) =
     (if values_help args \<or> positionals args = [] \<or>
         (\<exists>fileContent jsonData pizza.
            readFileSync (positionals args ! 0) = Content fileContent \<and>
            JSON_parse fileContent = Inr jsonData \<and>
            validatePizza unicode jsonData = Inr (IsPizza pizza))
      then 0 else 1)"
    by (auto simp add: main_def Let_def
        split: read_outcome.splits sum.splits exn.splits PizzaValidationResult.splits)
  have errors: "\<not> values_help args \<and> positionals args = filePath # others \<longrightarrow>
      (\<forall>msg. readFileSync filePath = ErrnoError ''ENOENT'' msg \<longrightarrow>
         main unicode num readFileSync JSON_parse args =
           \<lparr>stdout = [],
            stderr = [''Error: File '' @ [CHR 0x22] @ filePath @ [CHR 0x22] @ '' not found.''],
            exit_code = 1\<rparr>) \<and>
      (\<forall>fileContent msg.
         readFileSync filePath = Content fileContent \<and> JSON_parse fileContent = Inl msg \<longrightarrow>
         main unicode num readFileSync JSON_parse args =
           \<lparr>stdout = [],
            stderr = [''Error: Invalid JSON in file '' @ [CHR 0x22] @ filePath @ [CHR 0x22] @ ''.'',
                      msg],
            exit_code = 1\<rparr>) \<and>
      (\<forall>errcode msg. readFileSync filePath = ErrnoError errcode msg \<and> errcode \<noteq> ''ENOENT'' \<longrightarrow>
         main unicode num readFileSync JSON_parse args =
           \<lparr>stdout = [],
            stderr = [''Error reading file '' @ [CHR 0x22] @ filePath @ [CHR 0x22] @ '':'', msg],
            exit_code = 1\<rparr>)"
    by (simp add: main_def)
  show ?thesis
    using code errors by (rule conjI [rotated])
qed

theorem cli_operational_errors_witness:
  "\<forall>unicode.
     main unicode (\<lambda>r. ''0'') (\<lambda>p. ErrnoError ''ENOENT'' ''no such file or directory'')
       (\<lambda>t. Inl ''bad'') \<lparr>values_help = False, positionals = [''missing.json'']\<rparr> =
     \<lparr>stdout = [],
      stderr = [''Error: File '' @ [CHR 0x22] @ ''missing.json'' @ [CHR 0x22] @ '' not found.''],
      exit_code = 1\<rparr>"
proof
  fix unicode
  show "main unicode (\<lambda>r. ''0'') (\<lambda>p. ErrnoError ''ENOENT'' ''no such file or directory'')
       (\<lambda>t. Inl ''bad'') \<lparr>values_help = False, positionals = [''missing.json'']\<rparr> =
     \<lparr>stdout = [],
      stderr = [''Error: File '' @ [CHR 0x22] @ ''missing.json'' @ [CHR 0x22] @ '' not found.''],
      exit_code = 1\<rparr>"
    using cli_operational_errors
      [of "\<lparr>values_help = False, positionals = [''missing.json'']\<rparr>" "''missing.json''" "[]"
          "\<lambda>p. ErrnoError ''ENOENT'' ''no such file or directory''" unicode "\<lambda>r. ''0''"
          "\<lambda>t. Inl ''bad''"]
    by simp
qed

end
